theory Spec2Isabelle
  imports Main "HOL-Library.Sublist"
begin

section \<open>JavaScript primitives used by the hot reloader\<close>

text \<open>
  The development server of \<^verbatim>\<open>hot-reloader-turbopack.ts\<close> keeps its registries in
  JavaScript \<^verbatim>\<open>Map\<close> and \<^verbatim>\<open>Set\<close> objects. A \<^verbatim>\<open>Map\<close> iterates in insertion
  order and \<^verbatim>\<open>set\<close> on a present key keeps the key's position, so a \<^verbatim>\<open>Map\<close> is an
  association list here. Strings are \<open>char list\<close>.
\<close>

type_synonym ('k, 'v) jsmap = "('k \<times> 'v) list"

fun map_set :: "'k \<Rightarrow> 'v \<Rightarrow> ('k, 'v) jsmap \<Rightarrow> ('k, 'v) jsmap" where
  "map_set k v [] = [(k, v)]"
| "map_set k v ((k', v') # m) =
     (if k' = k then (k, v) # m else (k', v') # map_set k v m)"

definition map_get :: "('k, 'v) jsmap \<Rightarrow> 'k \<Rightarrow> 'v option" where
  "map_get m k = map_of m k"

definition map_has :: "('k, 'v) jsmap \<Rightarrow> 'k \<Rightarrow> bool" where
  "map_has m k = (map_of m k \<noteq> None)"

definition map_delete :: "'k \<Rightarrow> ('k, 'v) jsmap \<Rightarrow> ('k, 'v) jsmap" where
  "map_delete k m = filter (\<lambda>kv. fst kv \<noteq> k) m"

definition map_values :: "('k, 'v) jsmap \<Rightarrow> 'v list" where
  "map_values m = map snd m"

definition map_keys :: "('k, 'v) jsmap \<Rightarrow> 'k list" where
  "map_keys m = map fst m"

text \<open>A \<^verbatim>\<open>Set\<close> whose order of insertion shows (\<^verbatim>\<open>relevantIssues\<close>, which is
  spread into an array) is a list without duplicates.\<close>

definition set_add :: "'a \<Rightarrow> 'a list \<Rightarrow> 'a list" where
  "set_add x xs = (if x \<in> set xs then xs else xs @ [x])"

definition newline :: char where
  "newline = CHR 0x0A"

definition backslash :: char where
  "backslash = CHR 0x5C"

text \<open>\<^verbatim>\<open>Array.prototype.join\<close>.\<close>

fun join :: "string \<Rightarrow> string list \<Rightarrow> string" where
  "join sep [] = []"
| "join sep [x] = x"
| "join sep (x # y # ys) = x @ sep @ join sep (y # ys)"

text \<open>\<^verbatim>\<open>String.prototype.includes\<close>.\<close>

definition str_includes :: "string \<Rightarrow> string \<Rightarrow> bool" where
  "str_includes s needle = sublist needle s"

text \<open>\<^verbatim>\<open>s.replace(pat, rep)\<close> with a string pattern replaces the first occurrence.\<close>

fun replace_first :: "string \<Rightarrow> string \<Rightarrow> string \<Rightarrow> string" where
  "replace_first pat rep [] = (if pat = [] then rep else [])"
| "replace_first pat rep (c # cs) =
     (if prefix pat (c # cs) then rep @ drop (length pat) (c # cs)
      else c # replace_first pat rep cs)"

text \<open>\<^verbatim>\<open>s.replaceAll(pat, rep)\<close> for a non-empty string pattern: occurrences are
  replaced left to right without overlap. The first argument counts the characters of
  a match that are still to be skipped.\<close>

fun replace_all_from :: "nat \<Rightarrow> string \<Rightarrow> string \<Rightarrow> string \<Rightarrow> string" where
  "replace_all_from n pat rep [] = []"
| "replace_all_from (Suc n) pat rep (c # cs) = replace_all_from n pat rep cs"
| "replace_all_from 0 pat rep (c # cs) =
     (if prefix pat (c # cs) then rep @ replace_all_from (length pat - 1) pat rep cs
      else c # replace_all_from 0 pat rep cs)"

definition replaceAll :: "string \<Rightarrow> string \<Rightarrow> string \<Rightarrow> string" where
  "replaceAll pat rep s = replace_all_from 0 pat rep s"

text \<open>\<^verbatim>\<open>s.replace(/\n/g, '\n    ')\<close>.\<close>

definition indent_newlines :: "string \<Rightarrow> string" where
  "indent_newlines s = concat (map (\<lambda>c. if c = newline then newline # ''    '' else [c]) s)"

text \<open>\<^verbatim>\<open>String.prototype.trim\<close> on the ASCII white space characters.\<close>

definition is_space :: "char \<Rightarrow> bool" where
  "is_space c = (c \<in> set [CHR '' '', CHR 0x09, CHR 0x0A, CHR 0x0B, CHR 0x0C, CHR 0x0D])"

definition trim :: "string \<Rightarrow> string" where
  "trim s = rev (dropWhile is_space (rev (dropWhile is_space s)))"

text \<open>A non-negative integer in a template literal.\<close>

definition digit_char :: "nat \<Rightarrow> char" where
  "digit_char d = char_of (48 + d)"

fun string_of_nat :: "nat \<Rightarrow> string" where
  "string_of_nat n =
     (let last_digit = [digit_char (n mod 10)]
      in if 10 \<le> n then string_of_nat (n div 10) @ last_digit else last_digit)"

declare string_of_nat.simps [simp del]

section \<open>Issues and their formatting\<close>

text \<open>
  The types \<^verbatim>\<open>Issue\<close> and \<^verbatim>\<open>StyledString\<close> are declared in \<^verbatim>\<open>build/swc\<close>; their
  shape is read off the uses in \<^verbatim>\<open>issueKey\<close>, \<^verbatim>\<open>formatIssue\<close> and
  \<^verbatim>\<open>renderStyledStringToErrorAnsi\<close>. The severity is the string the code compares.
\<close>

datatype StyledString =
    Text string
  | Strong string
  | Code string
  | Line "StyledString list"
  | Stack "StyledString list"

record SourcePos =
  line :: nat
  column :: nat

record SourceRange =
  range_start :: SourcePos
  range_end :: SourcePos

record IssueSource =
  content :: "string option"
  range :: "SourceRange option"

record Issue =
  severity :: string
  filePath :: string
  title :: StyledString
  description :: "StyledString option"
  detail :: "StyledString option"
  source :: "IssueSource option"
  documentationLink :: string

text \<open>
  An engine result carries issues (\<^verbatim>\<open>TurbopackResult\<close>); a written endpoint adds its
  runtime \<^verbatim>\<open>type\<close>, and an update of the raw engine stream adds its \<^verbatim>\<open>type\<close> and an
  opaque body. An \<^verbatim>\<open>Endpoint\<close> is an engine object, known here by its identity.
\<close>

record TurbopackResult =
  issues :: "Issue list"

record WrittenEndpoint = TurbopackResult +
  endpoint_type :: string

record TurbopackUpdate = TurbopackResult +
  update_type :: string
  update_body :: string

datatype Endpoint = Endpoint nat

text \<open>The exceptions the file throws; \<^verbatim>\<open>TypeError\<close> is the runtime's, for a property
  read on \<^verbatim>\<open>undefined\<close>.\<close>

datatype error =
    ModuleBuildError string
  | PageNotFoundError string
  | Error string
  | TypeError

text \<open>
  What the file imports and the engine it drives are parameters of the model: the colour
  functions of \<^verbatim>\<open>picocolors\<close>, the replacement of magic identifiers
  (\<^verbatim>\<open>MAGIC_IDENTIFIER_REGEX\<close> and \<^verbatim>\<open>decodeMagicIdentifier\<close>, with \<^verbatim>\<open>magenta\<close>),
  \<^verbatim>\<open>codeFrameColumns\<close> of babel, \<^verbatim>\<open>JSON.stringify\<close> on a styled string, the constant
  \<^verbatim>\<open>BLOCKED_PAGES\<close>, \<^verbatim>\<open>findPagePathData\<close> (which yields the route definition's page or
  throws), the option \<^verbatim>\<open>experimental.instrumentationHook\<close> and the engine's
  \<^verbatim>\<open>writeToDisk\<close>.
\<close>

record env =
  bold :: "string \<Rightarrow> string"
  red :: "string \<Rightarrow> string"
  green :: "string \<Rightarrow> string"
  decodeMagicIdentifiers :: "string \<Rightarrow> string"
  codeFrameColumns :: "string \<Rightarrow> nat \<times> nat \<Rightarrow> nat \<times> nat \<Rightarrow> string"
  jsonStringify :: "StyledString \<Rightarrow> string"
  BLOCKED_PAGES :: "string list"
  findPagePathData :: "string \<Rightarrow> error + string"
  instrumentationHook :: bool
  writeToDisk :: "Endpoint \<Rightarrow> WrittenEndpoint"

fun renderStyledStringToErrorAnsi :: "env \<Rightarrow> StyledString \<Rightarrow> string" where
  "renderStyledStringToErrorAnsi f (Text v) = decodeMagicIdentifiers f v"
| "renderStyledStringToErrorAnsi f (Strong v) = bold f (red f (decodeMagicIdentifiers f v))"
| "renderStyledStringToErrorAnsi f (Code v) = green f (decodeMagicIdentifiers f v)"
| "renderStyledStringToErrorAnsi f (Line vs) =
     join [] (map (renderStyledStringToErrorAnsi f) vs)"
| "renderStyledStringToErrorAnsi f (Stack vs) =
     join [newline] (map (renderStyledStringToErrorAnsi f) vs)"

text \<open>\<^verbatim>\<open>issueKey\<close>: \<^verbatim>\<open>join\<close> renders the \<^verbatim>\<open>undefined\<close> of a missing description as
  the empty string.\<close>

definition issueKey :: "env \<Rightarrow> Issue \<Rightarrow> string" where
  "issueKey f issue =
     join ''-''
       [severity issue,
        filePath issue,
        jsonStringify f (title issue),
        (case description issue of None \<Rightarrow> [] | Some d \<Rightarrow> jsonStringify f d)]"

definition formattedFilePath :: "string \<Rightarrow> string" where
  "formattedFilePath p =
     replace_first [backslash, backslash, CHR ''?'', backslash] []
       (replaceAll ''/./'' ''/'' (replace_first ''[project]/'' ''./'' p))"

definition source_range :: "Issue \<Rightarrow> SourceRange option" where
  "source_range issue = (case source issue of None \<Rightarrow> None | Some s \<Rightarrow> range s)"

definition formatIssue :: "env \<Rightarrow> Issue \<Rightarrow> string" where
  "formatIssue f issue =
     (let formattedTitle = indent_newlines (renderStyledStringToErrorAnsi f (title issue));
          docLink =
            (if str_includes formattedTitle ''Module not found''
             then ''https://nextjs.org/docs/messages/module-not-found''
             else documentationLink issue);
          path = formattedFilePath (filePath issue);
          message0 =
            (case source_range issue of
               Some r \<Rightarrow>
                 path @ '':'' @ string_of_nat (line (range_start r) + 1) @ '':''
                   @ string_of_nat (column (range_start r) + 1) @ [newline] @ formattedTitle
             | None \<Rightarrow>
                 if path \<noteq> [] then path @ [newline] @ formattedTitle else formattedTitle);
          message1 = message0 @ [newline];
          message2 =
            (case source issue of
               None \<Rightarrow> message1
             | Some s \<Rightarrow>
                 (case (range s, content s) of
                    (Some r, Some c) \<Rightarrow>
                      if c \<noteq> [] then
                        message1
                          @ trim (codeFrameColumns f c
                                    (line (range_start r) + 1, column (range_start r) + 1)
                                    (line (range_end r) + 1, column (range_end r) + 1))
                          @ [newline, newline]
                      else message1
                  | _ \<Rightarrow> message1));
          message3 =
            (case description issue of
               None \<Rightarrow> message2
             | Some d \<Rightarrow> message2 @ renderStyledStringToErrorAnsi f d @ [newline, newline])
      in if docLink \<noteq> [] then message3 @ docLink @ [newline, newline] else message3)"

section \<open>The issue ledger: \<^verbatim>\<open>processIssues\<close>\<close>

text \<open>\<^verbatim>\<open>/(^|\/)node_modules(\/|$)/.test(filePath)\<close>: the word stands at the start of
  the path or after a slash, and is followed by a slash or the end of the path.\<close>

definition node_modules_here :: "string \<Rightarrow> bool" where
  "node_modules_here s =
     (prefix ''node_modules'' s \<and>
      (case drop 12 s of [] \<Rightarrow> True | c # _ \<Rightarrow> c = CHR ''/''))"

fun node_modules_after_slash :: "string \<Rightarrow> bool" where
  "node_modules_after_slash [] = False"
| "node_modules_after_slash (c # cs) =
     ((c = CHR ''/'' \<and> node_modules_here cs) \<or> node_modules_after_slash cs)"

definition in_node_modules :: "string \<Rightarrow> bool" where
  "in_node_modules p = (node_modules_here p \<or> node_modules_after_slash p)"

type_synonym Issues = "(string, (string, Issue) jsmap) jsmap"

text \<open>The loop of \<^verbatim>\<open>processIssues\<close> over \<^verbatim>\<open>result.issues\<close>, on the pair of
  \<^verbatim>\<open>newIssues\<close> and \<^verbatim>\<open>relevantIssues\<close>.\<close>

fun collectIssues ::
  "env \<Rightarrow> Issue list \<Rightarrow> (string, Issue) jsmap \<times> string list
     \<Rightarrow> (string, Issue) jsmap \<times> string list" where
  "collectIssues f [] acc = acc"
| "collectIssues f (issue # rest) (newIssues, relevantIssues) =
     (if severity issue \<noteq> ''error'' \<and> severity issue \<noteq> ''fatal''
      then collectIssues f rest (newIssues, relevantIssues)
      else
        let key = issueKey f issue;
            formatted = formatIssue f issue;
            newIssues' = map_set key issue newIssues
        in if in_node_modules (filePath issue)
           then collectIssues f rest (newIssues', relevantIssues)
           else collectIssues f rest (newIssues', set_add formatted relevantIssues))"

text \<open>\<^verbatim>\<open>processIssues\<close> mutates the ledger before it may throw, so the model returns
  the new ledger together with the exception, if any.\<close>

definition processIssues ::
  "env \<Rightarrow> Issues \<Rightarrow> string \<Rightarrow> 'a TurbopackResult_scheme \<Rightarrow> bool
     \<Rightarrow> Issues \<times> error option" where
  "processIssues f ledger name result throwIssue =
     (let (newIssues, relevantIssues) = collectIssues f (issues result) ([], [])
      in (map_set name newIssues ledger,
          if relevantIssues \<noteq> [] \<and> throwIssue
          then Some (ModuleBuildError (join [newline, newline] relevantIssues))
          else None))"

section \<open>The state of one hot reloader\<close>

text \<open>
  The route types of \<^verbatim>\<open>build/swc\<close>, as \<^verbatim>\<open>handleEntries\<close> and \<^verbatim>\<open>handleRouteType\<close>
  read them. A route of any other type carries the name of its type.
\<close>

record AppPage =
  originalName :: string
  htmlEndpoint :: Endpoint
  rscEndpoint :: Endpoint

datatype Route =
    Page Endpoint Endpoint
  | PageApi Endpoint
  | AppPageRoute "AppPage list"
  | AppRoute string Endpoint
  | OtherRoute string

text \<open>The messages sent to the browser. \<^verbatim>\<open>client.send(JSON.stringify(action))\<close> is
  recorded as the action; the constant fields of \<^verbatim>\<open>sync\<close> and \<^verbatim>\<open>built\<close>
  (\<^verbatim>\<open>warnings: []\<close>, \<^verbatim>\<open>hash: ''\<close>, \<^verbatim>\<open>versionInfo\<close>) are left out.\<close>

record CompilationError =
  message :: string
  details :: "string option"

datatype HMR_ACTION =
    TURBOPACK_CONNECTED
  | SYNC "string list"
  | BUILDING
  | BUILT string "CompilationError list"
  | RELOAD_PAGE
  | SERVER_COMPONENT_CHANGES
  | MIDDLEWARE_CHANGES
  | SERVER_ONLY_CHANGES "string list"
  | CLIENT_CHANGES
  | TURBOPACK_MESSAGE "TurbopackUpdate list"

datatype phase = client | server

text \<open>The \<^verbatim>\<open>makePayload\<close> closures that the file passes to \<^verbatim>\<open>changeSubscription\<close>.\<close>

datatype makePayload =
    ServerOnly string
  | ClientChanged
  | ReloadPage
  | ServerComponent string
  | MiddlewareChanged Endpoint

text \<open>A change subscription: the iterator the engine returned (known by a number), and
  what the suspended \<^verbatim>\<open>changeSubscription\<close> call holds in its closure.\<close>

record ChangeSubscription =
  iterator :: nat
  sub_page :: string
  sub_phase :: phase
  sub_includeIssues :: bool
  sub_endpoint :: Endpoint
  sub_makePayload :: makePayload

record GlobalEntries =
  app :: "Endpoint option"
  document :: "Endpoint option"
  error_entry :: "Endpoint option"

datatype OutputState = Loading string "string option" | NotLoading

text \<open>
  The variables that \<^verbatim>\<open>createHotReloaderTurbopack\<close> closes over; \<open>ledger\<close> is the
  variable \<^verbatim>\<open>issues\<close>. A web socket is known by a number. The last six fields are the
  world the file acts on: the console store, the timer of the debounced flush, what each
  socket has been sent, the endpoints \<^verbatim>\<open>writeToDisk\<close> was called on (in order), the
  number of the next iterator the engine hands out and the iterators that were returned.
  The manifests, the require cache and the server fields are not part of the model; reading
  and writing them is taken to succeed.
\<close>

record state =
  curEntries :: "(string, Route) jsmap"
  curAppEntries :: "(string, Route) jsmap"
  changeSubscriptions :: "(string, ChangeSubscription) jsmap"
  prevMiddleware :: "bool option"
  globalEntries :: GlobalEntries
  hmrPayloads :: "(string, HMR_ACTION) jsmap"
  turbopackUpdates :: "TurbopackUpdate list"
  ledger :: Issues
  buildingIds :: "string set"
  readyIds :: "string set"
  hmrEventHappened :: bool
  hmrHash :: nat
  clientToHmrSubscription :: "(nat, (string, nat) jsmap) jsmap"
  clients :: "nat set"
  consoleStore :: "OutputState option"
  flushTimer :: bool
  outbox :: "nat \<Rightarrow> HMR_ACTION list"
  written :: "Endpoint list"
  nextIterator :: nat
  returned :: "nat list"

definition initial :: state where
  "initial =
     \<lparr>curEntries = [], curAppEntries = [], changeSubscriptions = [],
      prevMiddleware = None,
      globalEntries = \<lparr>app = None, document = None, error_entry = None\<rparr>,
      hmrPayloads = [], turbopackUpdates = [], ledger = [],
      buildingIds = {}, readyIds = {}, hmrEventHappened = False, hmrHash = 0,
      clientToHmrSubscription = [], clients = {}, consoleStore = None,
      flushTimer = False, outbox = (\<lambda>_. []), written = [], nextIterator = 0,
      returned = []\<rparr>"

section \<open>Build trigger and readiness tracker\<close>

text \<open>\<^verbatim>\<open>startBuilding\<close> returns a closure: the inert \<^verbatim>\<open>() => {}\<close> or
  \<^verbatim>\<open>finishBuilding\<close>, which remembers the id.\<close>

datatype handle = Inert | FinishBuilding string

definition startBuilding ::
  "string \<Rightarrow> string option \<Rightarrow> bool \<Rightarrow> state \<Rightarrow> handle \<times> state" where
  "startBuilding ident requestUrl forceRebuild st =
     (if \<not> forceRebuild \<and> ident \<in> readyIds st then (Inert, st)
      else
        let st1 = (if buildingIds st = {}
                   then st\<lparr>consoleStore := Some (Loading ident requestUrl)\<rparr>
                   else st)
        in (FinishBuilding ident, st1\<lparr>buildingIds := insert ident (buildingIds st1)\<rparr>))"

fun callHandle :: "handle \<Rightarrow> state \<Rightarrow> state" where
  "callHandle Inert st = st"
| "callHandle (FinishBuilding ident) st =
     (if buildingIds st = {} then st
      else
        let st1 = st\<lparr>readyIds := insert ident (readyIds st),
                     buildingIds := buildingIds st - {ident}\<rparr>
        in if buildingIds st1 = {} then st1\<lparr>consoleStore := Some NotLoading\<rparr> else st1)"

text \<open>An interleaving of \<^verbatim>\<open>startBuilding\<close> calls and of calls of the handles they
  returned: \<open>Call n\<close> calls the \<open>n\<close>-th handle returned so far (and does nothing when
  there is none).\<close>

datatype tracker_event = Start string "string option" bool | Call nat

fun forced :: "tracker_event \<Rightarrow> bool" where
  "forced (Start ident requestUrl forceRebuild) = forceRebuild"
| "forced (Call n) = False"

fun tracker_step :: "tracker_event \<Rightarrow> handle list \<times> state \<Rightarrow> handle list \<times> state" where
  "tracker_step (Start ident requestUrl forceRebuild) (hs, st) =
     (let (h, st') = startBuilding ident requestUrl forceRebuild st in (hs @ [h], st'))"
| "tracker_step (Call n) (hs, st) =
     (if n < length hs then (hs, callHandle (hs ! n) st) else (hs, st))"

definition tracker_run :: "tracker_event list \<Rightarrow> handle list \<times> state \<Rightarrow> handle list \<times> state" where
  "tracker_run evs c = foldl (\<lambda>c ev. tracker_step ev c) c evs"

section \<open>Client fan-out and the event coalescer\<close>

text \<open>\<^verbatim>\<open>client.send\<close> on one socket, and \<^verbatim>\<open>hotReloader.send\<close>, the broadcast: its
  loop calls \<^verbatim>\<open>client.send\<close> once on every socket of the set \<^verbatim>\<open>clients\<close>, and each
  socket has its own outbox, so the order of the loop does not show.\<close>

definition client_send :: "nat \<Rightarrow> HMR_ACTION \<Rightarrow> state \<Rightarrow> state" where
  "client_send c action st = st\<lparr>outbox := (outbox st)(c := outbox st c @ [action])\<rparr>"

definition send :: "HMR_ACTION \<Rightarrow> state \<Rightarrow> state" where
  "send action st =
     st\<lparr>outbox := (\<lambda>c. if c \<in> clients st then outbox st c @ [action] else outbox st c)\<rparr>"

definition ledger_blocked :: "Issues \<Rightarrow> bool" where
  "ledger_blocked l = list_ex (\<lambda>issueMap. issueMap \<noteq> []) (map_values l)"

definition sendEnqueuedMessages :: "state \<Rightarrow> state" where
  "sendEnqueuedMessages st =
     (if ledger_blocked (ledger st) then st
      else
        let st1 = foldl (\<lambda>s payload. send payload s) st (map_values (hmrPayloads st));
            st2 = st1\<lparr>hmrPayloads := []\<rparr>
        in if turbopackUpdates st2 \<noteq> []
           then (send (TURBOPACK_MESSAGE (turbopackUpdates st2)) st2)\<lparr>turbopackUpdates := []\<rparr>
           else st2)"

text \<open>\<^verbatim>\<open>debounce(sendEnqueuedMessages, 2)\<close>: a call arms (or re-arms) the one timer, and
  the timer calls \<^verbatim>\<open>sendEnqueuedMessages\<close> when it fires.\<close>

definition sendEnqueuedMessagesDebounce :: "state \<Rightarrow> state" where
  "sendEnqueuedMessagesDebounce st = st\<lparr>flushTimer := True\<rparr>"

definition timerFires :: "state \<Rightarrow> state" where
  "timerFires st =
     (if flushTimer st then sendEnqueuedMessages (st\<lparr>flushTimer := False\<rparr>) else st)"

definition sendHmr :: "string \<Rightarrow> string \<Rightarrow> HMR_ACTION \<Rightarrow> state \<Rightarrow> state" where
  "sendHmr key ident payload st =
     sendEnqueuedMessagesDebounce
       (st\<lparr>hmrPayloads := map_set (key @ '':'' @ ident) payload (hmrPayloads st),
           hmrEventHappened := True\<rparr>)"

definition sendTurbopackMessage :: "TurbopackUpdate \<Rightarrow> state \<Rightarrow> state" where
  "sendTurbopackMessage payload st =
     sendEnqueuedMessagesDebounce
       (st\<lparr>turbopackUpdates := turbopackUpdates st @ [payload],
           hmrEventHappened := True\<rparr>)"

text \<open>\<^verbatim>\<open>processIssues\<close> on the ledger of the state.\<close>

definition recordIssues ::
  "env \<Rightarrow> string \<Rightarrow> 'a TurbopackResult_scheme \<Rightarrow> bool \<Rightarrow> state \<Rightarrow> state \<times> error option" where
  "recordIssues e name result throwIssue st =
     (let (l, err) = processIssues e (ledger st) name result throwIssue
      in (st\<lparr>ledger := l\<rparr>, err))"

text \<open>The errors of the \<^verbatim>\<open>sync\<close> action: every issue of every bucket, formatted.\<close>

definition sync_errors :: "env \<Rightarrow> Issues \<Rightarrow> string list" where
  "sync_errors e l = concat (map (\<lambda>pageIssues. map (formatIssue e) (map_values pageIssues)) (map_values l))"

text \<open>The callback of \<^verbatim>\<open>handleUpgrade\<close> in \<^verbatim>\<open>onHMR\<close>, for the new socket \<open>c\<close>, and
  the socket's \<^verbatim>\<open>close\<close> listener.\<close>

definition onHMR :: "env \<Rightarrow> nat \<Rightarrow> state \<Rightarrow> state" where
  "onHMR e c st =
     (let st1 = st\<lparr>clients := insert c (clients st)\<rparr>;
          st2 = client_send c TURBOPACK_CONNECTED st1
      in send (SYNC (sync_errors e (ledger st2))) st2)"

definition onClose :: "nat \<Rightarrow> state \<Rightarrow> state" where
  "onClose c st = st\<lparr>clients := clients st - {c}\<rparr>"

text \<open>
  \<^verbatim>\<open>subscribeToHmrEvents\<close>. The call registers the iterator of \<^verbatim>\<open>project.hmrEvents(id)\<close>
  and then consumes what the iterator produces: an item or a rejection. The first item is
  awaited and dropped; each later item goes through \<^verbatim>\<open>processIssues\<close> and, unless its
  type is \<^verbatim>\<open>issues\<close>, through \<^verbatim>\<open>sendTurbopackMessage\<close>. A rejection sends the reload
  action to this socket and closes it.
\<close>

datatype stream_event = Item TurbopackUpdate | Rejects

definition hmrReload :: "nat \<Rightarrow> state \<Rightarrow> state" where
  "hmrReload c st = onClose c (client_send c RELOAD_PAGE st)"

fun hmrForward :: "env \<Rightarrow> string \<Rightarrow> nat \<Rightarrow> stream_event list \<Rightarrow> state \<Rightarrow> state" where
  "hmrForward e ident c [] st = st"
| "hmrForward e ident c (Rejects # rest) st = hmrReload c st"
| "hmrForward e ident c (Item data # rest) st =
     (let st1 = fst (recordIssues e ident data False st);
          st2 = (if update_type data \<noteq> ''issues'' then sendTurbopackMessage data st1 else st1)
      in hmrForward e ident c rest st2)"

fun hmrConsume :: "env \<Rightarrow> string \<Rightarrow> nat \<Rightarrow> stream_event list \<Rightarrow> state \<Rightarrow> state" where
  "hmrConsume e ident c [] st = st"
| "hmrConsume e ident c (Rejects # rest) st = hmrReload c st"
| "hmrConsume e ident c (Item first # rest) st = hmrForward e ident c rest st"

definition subscribeToHmrEvents ::
  "env \<Rightarrow> string \<Rightarrow> nat \<Rightarrow> stream_event list \<Rightarrow> state \<Rightarrow> state" where
  "subscribeToHmrEvents e ident c evs st =
     (let mapping = (case map_get (clientToHmrSubscription st) c of
                       None \<Rightarrow> [] | Some m \<Rightarrow> m)
      in if map_has mapping ident
         then st\<lparr>clientToHmrSubscription := map_set c mapping (clientToHmrSubscription st)\<rparr>
         else
           hmrConsume e ident c evs
             (st\<lparr>clientToHmrSubscription :=
                    map_set c (map_set ident (nextIterator st) mapping)
                      (clientToHmrSubscription st),
                 nextIterator := nextIterator st + 1\<rparr>))"

definition unsubscribeToHmrEvents :: "string \<Rightarrow> nat \<Rightarrow> state \<Rightarrow> state" where
  "unsubscribeToHmrEvents ident c st =
     (case map_get (clientToHmrSubscription st) c of
        None \<Rightarrow> st
      | Some mapping \<Rightarrow>
          (case map_get mapping ident of
             None \<Rightarrow> st
           | Some it \<Rightarrow> st\<lparr>returned := returned st @ [it]\<rparr>))"

section \<open>Change subscriptions\<close>

fun phase_name :: "phase \<Rightarrow> string" where
  "phase_name client = ''client''"
| "phase_name server = ''server''"

definition subscription_key :: "string \<Rightarrow> phase \<Rightarrow> string" where
  "subscription_key page ty = page @ '' ('' @ phase_name ty @ '')''"

text \<open>\<^verbatim>\<open>changeSubscription\<close> up to its first \<^verbatim>\<open>await\<close>: nothing happens without an
  endpoint or when the key is registered; otherwise the engine hands out an iterator
  and the key is registered.\<close>

definition changeSubscription ::
  "string \<Rightarrow> phase \<Rightarrow> bool \<Rightarrow> Endpoint option \<Rightarrow> makePayload \<Rightarrow> state \<Rightarrow> state" where
  "changeSubscription page ty includeIssues endpoint mk st =
     (let key = subscription_key page ty in
      case endpoint of
        None \<Rightarrow> st
      | Some ep \<Rightarrow>
          if map_has (changeSubscriptions st) key then st
          else st\<lparr>changeSubscriptions :=
                     map_set key
                       \<lparr>iterator = nextIterator st, sub_page = page, sub_phase = ty,
                        sub_includeIssues = includeIssues, sub_endpoint = ep,
                        sub_makePayload = mk\<rparr>
                       (changeSubscriptions st),
                   nextIterator := nextIterator st + 1\<rparr>)"

text \<open>\<^verbatim>\<open>clearChangeSubscription\<close>; the ledger entry it deletes is the one named by the
  subscription key.\<close>

definition clearChangeSubscription :: "string \<Rightarrow> phase \<Rightarrow> state \<Rightarrow> state" where
  "clearChangeSubscription page ty st =
     (let key = subscription_key page ty;
          st1 = (case map_get (changeSubscriptions st) key of
                   None \<Rightarrow> st
                 | Some subscription \<Rightarrow>
                     st\<lparr>returned := returned st @ [iterator subscription],
                        changeSubscriptions := map_delete key (changeSubscriptions st)\<rparr>)
      in st1\<lparr>ledger := map_delete key (ledger st1)\<rparr>)"

text \<open>One call of \<^verbatim>\<open>writeToDisk\<close> on an endpoint.\<close>

definition writeEndpoint :: "env \<Rightarrow> Endpoint \<Rightarrow> state \<Rightarrow> WrittenEndpoint \<times> state" where
  "writeEndpoint e ep st = (writeToDisk e ep, st\<lparr>written := written st @ [ep]\<rparr>)"

text \<open>\<^verbatim>\<open>processMiddleware\<close> of \<^verbatim>\<open>handleEntries\<close>.\<close>

definition processMiddleware :: "env \<Rightarrow> Endpoint \<Rightarrow> state \<Rightarrow> state" where
  "processMiddleware e ep st =
     (let (writtenEndpoint, st1) = writeEndpoint e ep st
      in fst (recordIssues e ''middleware'' writtenEndpoint False st1))"

text \<open>The \<^verbatim>\<open>makePayload\<close> closures, applied to a change.\<close>

fun runMakePayload ::
  "env \<Rightarrow> makePayload \<Rightarrow> 'a TurbopackResult_scheme \<Rightarrow> state \<Rightarrow> HMR_ACTION option \<times> state" where
  "runMakePayload e (ServerOnly page) change st =
     (Some (SERVER_ONLY_CHANGES [page]), st\<lparr>readyIds := readyIds st - {page}\<rparr>)"
| "runMakePayload e ClientChanged change st = (Some CLIENT_CHANGES, st)"
| "runMakePayload e ReloadPage change st = (Some RELOAD_PAGE, st)"
| "runMakePayload e (ServerComponent page) change st =
     (if list_ex (\<lambda>issue. severity issue = ''error'') (issues change) then (None, st)
      else (Some SERVER_COMPONENT_CHANGES, st\<lparr>readyIds := readyIds st - {page}\<rparr>))"
| "runMakePayload e (MiddlewareChanged ep) change st =
     (let (finishBuilding, st1) = startBuilding ''middleware'' None True st;
          st2 = processMiddleware e ep st1
      in (Some MIDDLEWARE_CHANGES, callHandle finishBuilding st2))"

text \<open>The body of the \<^verbatim>\<open>for await\<close> loop of \<^verbatim>\<open>changeSubscription\<close>, for one change
  that the iterator of the subscription delivers.\<close>

definition onChange :: "env \<Rightarrow> ChangeSubscription \<Rightarrow> 'a TurbopackResult_scheme \<Rightarrow> state \<Rightarrow> state" where
  "onChange e subscription change st =
     (let st1 = fst (recordIssues e (sub_page subscription) change False st);
          (payload, st2) = runMakePayload e (sub_makePayload subscription) change st1
      in case payload of
           None \<Rightarrow> st2
         | Some p \<Rightarrow>
             sendHmr ''endpoint-change''
               (subscription_key (sub_page subscription) (sub_phase subscription)) p st2)"

section \<open>The entrypoint directory: \<^verbatim>\<open>handleEntries\<close>\<close>

record Instrumentation =
  nodeJs :: Endpoint
  edge :: Endpoint

record Entrypoints =
  routes :: "(string, Route) jsmap"
  middleware :: "Endpoint option"
  instrumentation :: "Instrumentation option"
  pagesAppEndpoint :: "Endpoint option"
  pagesDocumentEndpoint :: "Endpoint option"
  pagesErrorEndpoint :: "Endpoint option"

text \<open>The \<^verbatim>\<open>switch\<close> over one route of the snapshot.\<close>

fun addRoute :: "string \<times> Route \<Rightarrow> state \<Rightarrow> state" where
  "addRoute (pathname, Page h d) st =
     st\<lparr>curEntries := map_set pathname (Page h d) (curEntries st)\<rparr>"
| "addRoute (pathname, PageApi ep) st =
     st\<lparr>curEntries := map_set pathname (PageApi ep) (curEntries st)\<rparr>"
| "addRoute (pathname, AppPageRoute pages) st =
     st\<lparr>curEntries := map_set pathname (AppPageRoute pages) (curEntries st),
        curAppEntries :=
          foldl (\<lambda>m page. map_set (originalName page) (AppPageRoute pages) m)
            (curAppEntries st) pages\<rparr>"
| "addRoute (pathname, AppRoute name ep) st =
     st\<lparr>curEntries := map_set pathname (AppRoute name ep) (curEntries st),
        curAppEntries := map_set name (AppRoute name ep) (curAppEntries st)\<rparr>"
| "addRoute (pathname, OtherRoute ty) st = st"

definition rebuildDirectory :: "Entrypoints \<Rightarrow> state \<Rightarrow> state" where
  "rebuildDirectory entrypoints st =
     foldl (\<lambda>s r. addRoute r s)
       (st\<lparr>globalEntries :=
              \<lparr>app = pagesAppEndpoint entrypoints,
               document = pagesDocumentEndpoint entrypoints,
               error_entry = pagesErrorEndpoint entrypoints\<rparr>,
           curEntries := [], curAppEntries := []\<rparr>)
       (routes entrypoints)"

text \<open>\<^verbatim>\<open>pathname.replace(/ \((?:client|server)\)$/, '')\<close>.\<close>

definition rawPathname :: "string \<Rightarrow> string" where
  "rawPathname pathname =
     (if suffix '' (client)'' pathname \<or> suffix '' (server)'' pathname
      then take (length pathname - 9) pathname
      else pathname)"

text \<open>The loop over \<^verbatim>\<open>changeSubscriptions\<close>, one entry at a time.\<close>

definition pruneSubscription :: "string \<times> ChangeSubscription \<Rightarrow> state \<Rightarrow> state" where
  "pruneSubscription entry st =
     (let pathname = fst entry; raw = rawPathname pathname in
      if raw = [] then st
      else if \<not> map_has (curEntries st) raw \<and> \<not> map_has (curAppEntries st) raw
      then st\<lparr>returned := returned st @ [iterator (snd entry)],
              changeSubscriptions := map_delete pathname (changeSubscriptions st)\<rparr>
      else st)"

definition pruneSubscriptions :: "state \<Rightarrow> state" where
  "pruneSubscriptions st = foldl (\<lambda>s entry. pruneSubscription entry s) st (changeSubscriptions st)"

text \<open>The loop over the ledger.\<close>

definition pruneIssues :: "state \<Rightarrow> state" where
  "pruneIssues st =
     foldl (\<lambda>s page. if \<not> map_has (curEntries s) page
                      then s\<lparr>ledger := map_delete page (ledger s)\<rparr> else s)
       st (map_keys (ledger st))"

text \<open>The directory is rebuilt and diffed against the subscriptions and the ledger.\<close>

definition diffDirectory :: "Entrypoints \<Rightarrow> state \<Rightarrow> state" where
  "diffDirectory entrypoints st = pruneIssues (pruneSubscriptions (rebuildDirectory entrypoints st))"

definition middlewareTransition :: "Entrypoints \<Rightarrow> state \<Rightarrow> state" where
  "middlewareTransition entrypoints st =
     (if prevMiddleware st = Some True \<and> middleware entrypoints = None
      then sendHmr ''entrypoint-change'' ''middleware'' MIDDLEWARE_CHANGES
             (clearChangeSubscription ''middleware'' server st)
      else if prevMiddleware st = Some False \<and> middleware entrypoints \<noteq> None
      then sendHmr ''endpoint-change'' ''middleware'' MIDDLEWARE_CHANGES st
      else st)"

definition processInstrumentation :: "env \<Rightarrow> string \<Rightarrow> Endpoint \<Rightarrow> state \<Rightarrow> state" where
  "processInstrumentation e name ep st =
     (let (writtenEndpoint, st1) = writeEndpoint e ep st
      in fst (recordIssues e name writtenEndpoint False st1))"

definition handleInstrumentation :: "env \<Rightarrow> Entrypoints \<Rightarrow> state \<Rightarrow> state" where
  "handleInstrumentation e entrypoints st =
     (case instrumentation entrypoints of
        None \<Rightarrow> st
      | Some i \<Rightarrow>
          if instrumentationHook e
          then processInstrumentation e ''instrumentation.edge'' (edge i)
                 (processInstrumentation e ''instrumentation.nodeJs'' (nodeJs i) st)
          else st)"

definition handleMiddleware :: "env \<Rightarrow> Entrypoints \<Rightarrow> state \<Rightarrow> state" where
  "handleMiddleware e entrypoints st =
     (case middleware entrypoints of
        Some ep \<Rightarrow>
          (changeSubscription ''middleware'' server False (Some ep) (MiddlewareChanged ep)
             (processMiddleware e ep st))\<lparr>prevMiddleware := Some True\<rparr>
      | None \<Rightarrow> st\<lparr>prevMiddleware := Some False\<rparr>)"

text \<open>One round of the loop of \<^verbatim>\<open>handleEntries\<close>, for one snapshot of the entrypoints.\<close>

definition handleEntries :: "env \<Rightarrow> Entrypoints \<Rightarrow> state \<Rightarrow> state" where
  "handleEntries e entrypoints st =
     handleMiddleware e entrypoints
       (handleInstrumentation e entrypoints
          (middlewareTransition entrypoints (diffDirectory entrypoints st)))"

section \<open>Ensuring a page: \<^verbatim>\<open>handleRouteType\<close> and \<^verbatim>\<open>ensurePage\<close>\<close>

text \<open>An optional global endpoint is written and its issues recorded under a name.\<close>

definition writeGlobal :: "env \<Rightarrow> string \<Rightarrow> Endpoint option \<Rightarrow> state \<Rightarrow> state" where
  "writeGlobal e name endpoint st =
     (case endpoint of
        None \<Rightarrow> st
      | Some ep \<Rightarrow>
          let (writtenEndpoint, st1) = writeEndpoint e ep st
          in fst (recordIssues e name writtenEndpoint False st1))"

definition subscribeDocument :: "state \<Rightarrow> state" where
  "subscribeDocument st =
     (case document (globalEntries st) of
        None \<Rightarrow> st
      | Some ep \<Rightarrow> changeSubscription ''_document'' server False (Some ep) ReloadPage st)"

text \<open>
  \<^verbatim>\<open>handleRouteType\<close>. The result is the state after the \<^verbatim>\<open>finally\<close> blocks have run,
  with the exception that leaves the function, if any.
\<close>

text \<open>\<^verbatim>\<open>route.pages.find((p) => p.originalName === page) ?? route.pages[0]\<close>, which
  is \<^verbatim>\<open>undefined\<close> when the route has no pages.\<close>

definition selectPage :: "string \<Rightarrow> AppPage list \<Rightarrow> AppPage option" where
  "selectPage page pages =
     (case find (\<lambda>p. originalName p = page) pages of
        Some p \<Rightarrow> Some p
      | None \<Rightarrow> (case pages of [] \<Rightarrow> None | p # _ \<Rightarrow> Some p))"

fun handleRouteType ::
  "env \<Rightarrow> string \<Rightarrow> string \<Rightarrow> Route \<Rightarrow> string option \<Rightarrow> state \<Rightarrow> state \<times> error option" where
  "handleRouteType e page pathname (Page html data) requestUrl st =
     (let (finishBuilding, st1) = startBuilding pathname requestUrl False st;
          st2 = writeGlobal e ''_app'' (app (globalEntries st1)) st1;
          st3 = writeGlobal e ''_document'' (document (globalEntries st2)) st2;
          (writtenEndpoint, st4) = writeEndpoint e html st3;
          st5 = fst (recordIssues e page writtenEndpoint False st4);
          st6 = changeSubscription page server False (Some data) (ServerOnly page) st5;
          st7 = changeSubscription page client False (Some html) ClientChanged st6;
          st8 = subscribeDocument st7
      in (callHandle finishBuilding st8, None))"
| "handleRouteType e page pathname (PageApi ep) requestUrl st =
     (let (finishBuilding, st1) = startBuilding pathname requestUrl False st;
          (writtenEndpoint, st2) = writeEndpoint e ep st1;
          st3 = fst (recordIssues e page writtenEndpoint False st2)
      in (callHandle finishBuilding st3, None))"
| "handleRouteType e page pathname (AppPageRoute pages) requestUrl st =
     (let pageRoute = selectPage page pages;
          (finishBuilding, st1) = startBuilding pathname requestUrl False st
      in case pageRoute of
           None \<Rightarrow> (callHandle finishBuilding st1, Some TypeError)
         | Some pr \<Rightarrow>
             let (writtenEndpoint, st2) = writeEndpoint e (htmlEndpoint pr) st1;
                 st3 = changeSubscription page server True (Some (rscEndpoint pr))
                         (ServerComponent page) st2;
                 (st4, err) = recordIssues e page writtenEndpoint True st3
             in (callHandle finishBuilding st4, err))"
| "handleRouteType e page pathname (AppRoute name ep) requestUrl st =
     (let (finishBuilding, st1) = startBuilding pathname requestUrl False st;
          (writtenEndpoint, st2) = writeEndpoint e ep st1;
          (st3, err) = recordIssues e page writtenEndpoint True st2
      in (callHandle finishBuilding st3, err))"
| "handleRouteType e page pathname (OtherRoute ty) requestUrl st =
     (st, Some (Error (''unknown route type '' @ ty @ '' for '' @ page)))"

text \<open>The branch of \<^verbatim>\<open>ensurePage\<close> for the page \<^verbatim>\<open>/_error\<close>.\<close>

definition ensureErrorPage :: "env \<Rightarrow> string \<Rightarrow> string \<Rightarrow> string option \<Rightarrow> state \<Rightarrow> state" where
  "ensureErrorPage e page pathname requestUrl st =
     (let (finishBuilding, st1) = startBuilding pathname requestUrl False st;
          st2 = writeGlobal e ''_app'' (app (globalEntries st1)) st1;
          st3 = (case document (globalEntries st2) of
                   None \<Rightarrow> st2
                 | Some ep \<Rightarrow>
                     let (writtenEndpoint, s1) = writeEndpoint e ep st2;
                         s2 = changeSubscription ''_document'' server False (Some ep) ReloadPage s1
                     in fst (recordIssues e ''_document'' writtenEndpoint False s2));
          st4 = writeGlobal e page (error_entry (globalEntries st3)) st3
      in callHandle finishBuilding st4)"

text \<open>The argument of \<^verbatim>\<open>ensurePage\<close>; of a route definition the function reads
  \<^verbatim>\<open>page\<close> and \<^verbatim>\<open>pathname\<close>.\<close>

record RouteDefinition =
  def_page :: string
  def_pathname :: "string option"

record EnsureOpts =
  inputPage :: string
  routeDefinition :: "RouteDefinition option"
  isApp :: bool
  requestUrl :: "string option"

text \<open>\<^verbatim>\<open>definition?.pathname\<close>, and the route that \<^verbatim>\<open>ensurePage\<close> looks up: under the
  definition's pathname when that is a non-empty string, else under the page, in the map
  that \<^verbatim>\<open>isApp\<close> selects.\<close>

definition definition_pathname :: "EnsureOpts \<Rightarrow> string option" where
  "definition_pathname opts =
     (case routeDefinition opts of None \<Rightarrow> None | Some d \<Rightarrow> def_pathname d)"

definition lookupRoute :: "EnsureOpts \<Rightarrow> string \<Rightarrow> state \<Rightarrow> Route option" where
  "lookupRoute opts page st =
     (case definition_pathname opts of
        Some p \<Rightarrow>
          if p \<noteq> [] then map_get (curEntries st) p
          else if isApp opts then map_get (curAppEntries st) page
          else map_get (curEntries st) page
      | None \<Rightarrow>
          if isApp opts then map_get (curAppEntries st) page
          else map_get (curEntries st) page)"

definition optional_pages :: "string list" where
  "optional_pages =
     [''/_app'', ''/_document'', ''/middleware'', ''/src/middleware'',
      ''/instrumentation'', ''/src/instrumentation'']"

fun is_page_route :: "Route \<Rightarrow> bool" where
  "is_page_route (Page html data) = True"
| "is_page_route r = False"

text \<open>The first lines of \<^verbatim>\<open>ensurePage\<close>: the early return on a blocked page, the
  route definition (\<^verbatim>\<open>definition ?? await findPagePathData(...)\<close>) and
  \<^verbatim>\<open>definition?.pathname ?? inputPage\<close>.\<close>

definition blockedPage :: "env \<Rightarrow> EnsureOpts \<Rightarrow> bool" where
  "blockedPage e opts =
     (inputPage opts \<noteq> ''/_error'' \<and> inputPage opts \<in> set (BLOCKED_PAGES e))"

definition resolvePage :: "env \<Rightarrow> EnsureOpts \<Rightarrow> error + string" where
  "resolvePage e opts =
     (case routeDefinition opts of
        Some d \<Rightarrow> Inr (def_page d)
      | None \<Rightarrow> findPagePathData e (inputPage opts))"

definition ensurePathname :: "EnsureOpts \<Rightarrow> string" where
  "ensurePathname opts =
     (case definition_pathname opts of Some p \<Rightarrow> p | None \<Rightarrow> inputPage opts)"

text \<open>\<^verbatim>\<open>ensurePage\<close>, once the handling of the current snapshot has settled
  (\<^verbatim>\<open>await currentEntriesHandling\<close>).\<close>

definition ensurePage :: "env \<Rightarrow> EnsureOpts \<Rightarrow> state \<Rightarrow> state \<times> error option" where
  "ensurePage e opts st =
     (if blockedPage e opts then (st, None)
      else
        case resolvePage e opts of
          Inl err \<Rightarrow> (st, Some err)
        | Inr page \<Rightarrow>
            let pathname = ensurePathname opts
            in if page = ''/_error''
               then (ensureErrorPage e page pathname (requestUrl opts) st, None)
               else
                 case lookupRoute opts page st of
                   None \<Rightarrow>
                     if page \<in> set optional_pages then (st, None)
                     else (st, Some (PageNotFoundError (''route not found '' @ page)))
                 | Some route \<Rightarrow>
                     if isApp opts \<and> is_page_route route
                     then (st, Some (Error (''mis-matched route type: isApp && page for '' @ page)))
                     else handleRouteType e page pathname route (requestUrl opts) st)"

section \<open>The update-timing stream\<close>

text \<open>The errors of the \<^verbatim>\<open>built\<close> action: the first issue of each key, over all
  buckets.\<close>

definition built_errors :: "env \<Rightarrow> Issues \<Rightarrow> (string, CompilationError) jsmap" where
  "built_errors e l =
     foldl (\<lambda>errors (key, issue).
              if map_has errors key then errors
              else map_set key
                     \<lparr>message = formatIssue e issue,
                      details = map_option (renderStyledStringToErrorAnsi e) (detail issue)\<rparr>
                     errors)
       [] (concat (map_values l))"

datatype updateType = UpdateStart | UpdateEnd

fun onUpdateInfo :: "env \<Rightarrow> updateType \<Rightarrow> state \<Rightarrow> state" where
  "onUpdateInfo e UpdateStart st = send BUILDING st"
| "onUpdateInfo e UpdateEnd st =
     (let st1 = sendEnqueuedMessages st;
          st2 = st1\<lparr>hmrHash := hmrHash st1 + 1\<rparr>;
          st3 = send (BUILT (string_of_nat (hmrHash st2)) (map_values (built_errors e (ledger st2)))) st2
      in st3\<lparr>hmrEventHappened := False\<rparr>)"

section \<open>Notions used to state the properties\<close>

text \<open>An issue is blocking when \<^verbatim>\<open>processIssues\<close> does not skip it: its severity is
  \<^verbatim>\<open>error\<close> or \<^verbatim>\<open>fatal\<close>. The bucket that \<^verbatim>\<open>processIssues\<close> stores for a result is
  the \<^verbatim>\<open>newIssues\<close> map of its loop.\<close>

definition blocking :: "Issue \<Rightarrow> bool" where
  "blocking issue = (severity issue = ''error'' \<or> severity issue = ''fatal'')"

definition bucket_of :: "env \<Rightarrow> Issue list \<Rightarrow> (string, Issue) jsmap" where
  "bucket_of e is = fst (collectIssues e is ([], []))"

subsection \<open>Example inputs\<close>

text \<open>A plain environment: no colours, no magic identifiers, the source as its own code
  frame, an engine that reports no issues, and the \<^verbatim>\<open>BLOCKED_PAGES\<close> of
  \<^verbatim>\<open>shared/lib/constants\<close>.\<close>

definition plain_json :: "StyledString \<Rightarrow> string" where
  "plain_json s = (case s of Text v \<Rightarrow> v | Strong v \<Rightarrow> v | Code v \<Rightarrow> v | _ \<Rightarrow> ''[]'')"

definition no_issues :: WrittenEndpoint where
  "no_issues = \<lparr>issues = [], endpoint_type = ''nodejs''\<rparr>"

definition example_env :: env where
  "example_env =
     \<lparr>bold = id, red = id, green = id, decodeMagicIdentifiers = id,
      codeFrameColumns = (\<lambda>src s e. src), jsonStringify = plain_json,
      BLOCKED_PAGES = [''/_document'', ''/_app'', ''/_error''],
      findPagePathData = (\<lambda>p. Inr p), instrumentationHook = False,
      writeToDisk = (\<lambda>ep. no_issues)\<rparr>"

definition example_issue :: "string \<Rightarrow> string \<Rightarrow> string \<Rightarrow> Issue" where
  "example_issue sev path msg =
     \<lparr>severity = sev, filePath = path, title = Text msg, description = None,
      detail = None, source = None, documentationLink = []\<rparr>"

subsection \<open>The pending notification queue\<close>

text \<open>A call \<^verbatim>\<open>sendHmr(key, id, payload)\<close> is a triple; its entry in \<^verbatim>\<open>hmrPayloads\<close>
  has the coalescing key \<^verbatim>\<open>`${key}:${id}`\<close>. \<open>sendHmrAll\<close> makes the calls of a list
  in order, \<open>enqueue\<close> is what they do to the map, and \<open>pending_messages\<close> are the
  messages an open flush sends: one per entry of \<^verbatim>\<open>hmrPayloads\<close>, then the batch of raw
  updates when there is one.\<close>

definition coalescing_entry :: "string \<times> string \<times> HMR_ACTION \<Rightarrow> string \<times> HMR_ACTION" where
  "coalescing_entry call = (fst call @ '':'' @ fst (snd call), snd (snd call))"

definition sendHmrAll :: "(string \<times> string \<times> HMR_ACTION) list \<Rightarrow> state \<Rightarrow> state" where
  "sendHmrAll calls st = foldl (\<lambda>s call. sendHmr (fst call) (fst (snd call)) (snd (snd call)) s) st calls"

definition pending_messages :: "state \<Rightarrow> HMR_ACTION list" where
  "pending_messages st =
     map_values (hmrPayloads st)
       @ (if turbopackUpdates st \<noteq> [] then [TURBOPACK_MESSAGE (turbopackUpdates st)] else [])"

definition enqueue :: "(string, HMR_ACTION) jsmap \<Rightarrow> (string \<times> HMR_ACTION) list \<Rightarrow> (string, HMR_ACTION) jsmap" where
  "enqueue m kvs = foldl (\<lambda>m kv. map_set (fst kv) (snd kv) m) m kvs"

subsection \<open>More example inputs\<close>

definition example_update :: "string \<Rightarrow> string \<Rightarrow> TurbopackUpdate" where
  "example_update ty body = \<lparr>issues = [], update_type = ty, update_body = body\<rparr>"



definition two_clients :: state where
  "two_clients = onHMR example_env 2 (onHMR example_env 1 initial)"

subsection \<open>Routes, lookups and stale subscriptions\<close>

text \<open>The endpoint of a unit that \<^verbatim>\<open>handleRouteType\<close> writes to disk, whether the route
  kind passes \<^verbatim>\<open>throwIssue = true\<close> to \<^verbatim>\<open>processIssues\<close>, and the global endpoints
  (\<^verbatim>\<open>_app\<close>, \<^verbatim>\<open>_document\<close>) that a page route writes before its own.\<close>

fun materialized_endpoint :: "string \<Rightarrow> Route \<Rightarrow> Endpoint option" where
  "materialized_endpoint page (Page html data) = Some html"
| "materialized_endpoint page (PageApi ep) = Some ep"
| "materialized_endpoint page (AppPageRoute pages) = map_option htmlEndpoint (selectPage page pages)"
| "materialized_endpoint page (AppRoute name ep) = Some ep"
| "materialized_endpoint page (OtherRoute ty) = None"

fun throws_on_issue :: "Route \<Rightarrow> bool" where
  "throws_on_issue (AppPageRoute pages) = True"
| "throws_on_issue (AppRoute name ep) = True"
| "throws_on_issue r = False"

definition option_list :: "'a option \<Rightarrow> 'a list" where
  "option_list x = (case x of None \<Rightarrow> [] | Some y \<Rightarrow> [y])"

fun shell_endpoints :: "Route \<Rightarrow> state \<Rightarrow> Endpoint list" where
  "shell_endpoints (Page html data) st =
     option_list (app (globalEntries st)) @ option_list (document (globalEntries st))"
| "shell_endpoints r st = []"

text \<open>The key under which \<^verbatim>\<open>ensurePage\<close> looks the route up, and the condition
  under which the loop of \<^verbatim>\<open>handleEntries\<close> closes the subscription of a key.\<close>

definition lookupKey :: "EnsureOpts \<Rightarrow> string \<Rightarrow> string" where
  "lookupKey opts page =
     (case definition_pathname opts of
        Some p \<Rightarrow> if p \<noteq> [] then p else page
      | None \<Rightarrow> page)"


subsection \<open>An example project\<close>

text \<open>A snapshot with the page \<^verbatim>\<open>/about\<close> and the app page \<^verbatim>\<open>/broken\<close>, whose html
  endpoint reports one error; the state after \<^verbatim>\<open>handleEntries\<close> has handled the
  snapshot; and requests.\<close>

definition broken_issue :: Issue where
  "broken_issue = example_issue ''error'' ''[project]/app/broken/page.tsx'' ''Unexpected token''"

definition broken_route :: Route where
  "broken_route =
     AppPageRoute [\<lparr>originalName = ''/broken/page'', htmlEndpoint = Endpoint 7,
                     rscEndpoint = Endpoint 8\<rparr>]"

definition broken_result :: WrittenEndpoint where
  "broken_result =
     \<lparr>issues = [broken_issue], endpoint_type = ''nodejs''\<rparr>"

definition broken_env :: env where
  "broken_env = example_env\<lparr>writeToDisk := (\<lambda>ep. if ep = Endpoint 7 then broken_result else no_issues)\<rparr>"

definition example_entrypoints :: Entrypoints where
  "example_entrypoints =
     \<lparr>routes =
        [(''/about'', Page (Endpoint 1) (Endpoint 2)),
         (''/broken'', broken_route)],
      middleware = None, instrumentation = None,
      pagesAppEndpoint = Some (Endpoint 3), pagesDocumentEndpoint = Some (Endpoint 4),
      pagesErrorEndpoint = Some (Endpoint 5)\<rparr>"


definition served :: state where
  "served = handleEntries broken_env example_entrypoints initial"

definition broken_request :: EnsureOpts where
  "broken_request =
     \<lparr>inputPage = ''/broken/page'',
      routeDefinition = Some \<lparr>def_page = ''/broken/page'', def_pathname = Some ''/broken''\<rparr>,
      isApp = True, requestUrl = Some ''/broken''\<rparr>"

definition about_request :: EnsureOpts where
  "about_request =
     \<lparr>inputPage = ''/about'', routeDefinition = None, isApp = False, requestUrl = None\<rparr>"

definition error_request :: EnsureOpts where
  "error_request =
     \<lparr>inputPage = ''/_error'', routeDefinition = None, isApp = False, requestUrl = None\<rparr>"

definition nameless_request :: EnsureOpts where
  "nameless_request =
     \<lparr>inputPage = ''/broken'',
      routeDefinition = Some \<lparr>def_page = [], def_pathname = Some ''/broken''\<rparr>,
      isApp = True, requestUrl = None\<rparr>"

definition optional_request :: EnsureOpts where
  "optional_request =
     \<lparr>inputPage = ''/middleware'', routeDefinition = None, isApp = False, requestUrl = None\<rparr>"

definition missing_request :: EnsureOpts where
  "missing_request =
     \<lparr>inputPage = ''/missing'', routeDefinition = None, isApp = False, requestUrl = None\<rparr>"

definition about_ready :: state where
  "about_ready = fst (ensurePage example_env about_request served)"


text \<open>What the examples observe of a call of \<^verbatim>\<open>ensurePage\<close> (the exception, the ready
  set and the log of \<^verbatim>\<open>writeToDisk\<close>) and of the registries of a state.\<close>

definition outcome :: "state \<times> error option \<Rightarrow> error option \<times> string set \<times> Endpoint list" where
  "outcome r = (snd r, readyIds (fst r), written (fst r))"

definition in_directory :: "state \<Rightarrow> string \<Rightarrow> bool" where
  "in_directory st key = (map_has (curEntries st) key \<or> map_has (curAppEntries st) key)"


section \<open>The issue ledger\<close>

subsection \<open>Association lists as maps\<close>

lemma collect_fst:
  "fst (collectIssues e is (n, r)) =
     foldl (\<lambda>m i. map_set (issueKey e i) i m) n (filter blocking is)"
  by (induction "is" arbitrary: n r) (auto simp: blocking_def Let_def)

lemma collect_snd:
  "snd (collectIssues e is (n, r)) =
     foldl (\<lambda>r i. set_add (formatIssue e i) r) r
       (filter (\<lambda>i. blocking i \<and> \<not> in_node_modules (filePath i)) is)"
  by (induction "is" arbitrary: n r) (auto simp: blocking_def Let_def)

lemma map_get_map_set: "map_get (map_set k v m) k' = (if k' = k then Some v else map_get m k')"
  by (induction m) (auto simp: map_get_def)

lemma set_map_set: "set (map_set k v m) \<subseteq> insert (k, v) (set m)"
  by (induction m) (auto split: if_splits)

lemma keys_map_set: "fst ` set (map_set k v m) = insert k (fst ` set m)"
proof (induction m)
  case Nil
  show ?case by simp
next
  case (Cons p m)
  obtain k' v' where p: "p = (k', v')" by (cases p)
  show ?case
  proof (cases "k' = k")
    case True
    with p show ?thesis by simp
  next
    case False
    with p Cons.IH show ?thesis by (simp add: insert_commute)
  qed
qed

lemma map_has_keys: "map_has m k = (k \<in> fst ` set m)"
  by (simp add: map_has_def map_of_eq_None_iff)

lemma keys_foldl_map_set:
  "fst ` set (foldl (\<lambda>m i. map_set (g i) i m) n xs) = fst ` set n \<union> g ` set xs"
  by (induction xs arbitrary: n) (auto simp: keys_map_set)

lemma entries_foldl_map_set:
  "set (foldl (\<lambda>m i. map_set (g i) i m) n xs) \<subseteq> set n \<union> (\<lambda>i. (g i, i)) ` set xs"
proof (induction xs arbitrary: n)
  case Nil
  show ?case by simp
next
  case (Cons x xs)
  have "set (foldl (\<lambda>m i. map_set (g i) i m) (map_set (g x) x n) xs)
          \<subseteq> set (map_set (g x) x n) \<union> (\<lambda>i. (g i, i)) ` set xs"
    by (rule Cons.IH)
  with set_map_set [of "g x" x n] show ?case by auto
qed

lemma set_foldl_set_add:
  "set (foldl (\<lambda>r i. set_add (g i) r) r xs) = set r \<union> g ` set xs"
  by (induction xs arbitrary: r) (auto simp: set_add_def)

lemma relevant_nonempty:
  "(snd (collectIssues e is ([], [])) \<noteq> []) =
     (\<exists>i \<in> set is. blocking i \<and> \<not> in_node_modules (filePath i))"
proof -
  have "(snd (collectIssues e is ([], [])) \<noteq> []) = (set (snd (collectIssues e is ([], []))) \<noteq> {})"
    by simp
  also have "\<dots> = (\<exists>i \<in> set is. blocking i \<and> \<not> in_node_modules (filePath i))"
    unfolding collect_snd set_foldl_set_add by auto
  finally show ?thesis .
qed

lemma processIssues_fst:
  "fst (processIssues e l name r t) = map_set name (bucket_of e (issues r)) l"
  by (simp add: processIssues_def bucket_of_def split: prod.splits)

lemma processIssues_snd:
  "snd (processIssues e l name r t) =
     (if snd (collectIssues e (issues r) ([], [])) \<noteq> [] \<and> t
      then Some (ModuleBuildError (join [newline, newline] (snd (collectIssues e (issues r) ([], [])))))
      else None)"
  by (simp add: processIssues_def split: prod.splits)

text \<open>
  C4, as the code has it. \<^verbatim>\<open>processIssues\<close> stores under the unit's name exactly the
  bucket built from this result, whatever the ledger held for the unit before, and leaves
  every other bucket alone. Every issue of severity \<^verbatim>\<open>error\<close> or \<^verbatim>\<open>fatal\<close> is in the
  bucket under its key, and every entry of the bucket is such an issue of the result: an
  issue of a lower severity is not stored. The call throws exactly when it was asked to
  and some \<^verbatim>\<open>error\<close> or \<^verbatim>\<open>fatal\<close> issue lies outside \<^verbatim>\<open>node_modules\<close>.
\<close>

theorem processIssues_keeps_only_blocking:
  "map_get (fst (processIssues e l name r t)) name = Some (bucket_of e (issues r))
   \<and> (\<forall>n. n \<noteq> name \<longrightarrow> map_get (fst (processIssues e l name r t)) n = map_get l n)
   \<and> (\<forall>i \<in> set (issues r). blocking i \<longrightarrow> map_has (bucket_of e (issues r)) (issueKey e i))
   \<and> (\<forall>entry \<in> set (bucket_of e (issues r)).
         blocking (snd entry) \<and> snd entry \<in> set (issues r) \<and> fst entry = issueKey e (snd entry))
   \<and> ((snd (processIssues e l name r t) \<noteq> None) =
        (t \<and> (\<exists>i \<in> set (issues r). blocking i \<and> \<not> in_node_modules (filePath i))))"
proof (intro conjI)
  show "map_get (fst (processIssues e l name r t)) name = Some (bucket_of e (issues r))"
    by (simp add: processIssues_fst map_get_map_set)
  show "\<forall>n. n \<noteq> name \<longrightarrow> map_get (fst (processIssues e l name r t)) n = map_get l n"
    by (simp add: processIssues_fst map_get_map_set)
  show "\<forall>i \<in> set (issues r). blocking i \<longrightarrow> map_has (bucket_of e (issues r)) (issueKey e i)"
    by (auto simp: map_has_keys bucket_of_def collect_fst keys_foldl_map_set)
  show "\<forall>entry \<in> set (bucket_of e (issues r)).
         blocking (snd entry) \<and> snd entry \<in> set (issues r) \<and> fst entry = issueKey e (snd entry)"
    using entries_foldl_map_set [of "issueKey e" "[]" "filter blocking (issues r)"]
    by (auto simp: bucket_of_def collect_fst)
  show "(snd (processIssues e l name r t) \<noteq> None) =
        (t \<and> (\<exists>i \<in> set (issues r). blocking i \<and> \<not> in_node_modules (filePath i)))"
    using relevant_nonempty [of e "issues r"] by (auto simp: processIssues_snd)
qed

theorem processIssues_keeps_only_blocking_witness:
  "map_has
     (bucket_of example_env
        [example_issue ''warning'' ''app/page.tsx'' ''unused variable'',
         example_issue ''fatal'' ''app/page.tsx'' ''no such file''])
     (issueKey example_env (example_issue ''fatal'' ''app/page.tsx'' ''no such file''))
   \<and> blocking (example_issue ''fatal'' ''app/page.tsx'' ''no such file'')"
  using processIssues_keeps_only_blocking
    [of example_env "[]" "''/page''"
        "\<lparr>issues = [example_issue ''warning'' ''app/page.tsx'' ''unused variable'',
                    example_issue ''fatal'' ''app/page.tsx'' ''no such file'']\<rparr>" False]
  by (simp add: blocking_def example_issue_def)

text \<open>
  C4 as the specification words it fails: an issue of severity \<^verbatim>\<open>warning\<close> is not
  retained. The bucket recorded for a result with one warning is empty.
\<close>

theorem processIssues_drops_warning:
  "severity (example_issue ''warning'' ''app/page.tsx'' ''unused variable'') = ''warning''
   \<and> map_get (fst (processIssues example_env [] ''/page''
        \<lparr>issues = [example_issue ''warning'' ''app/page.tsx'' ''unused variable'']\<rparr> False)) ''/page''
      = Some []"
  by (simp add: processIssues_def example_issue_def map_get_def)

section \<open>The build tracker\<close>

lemma disjoint_step:
  assumes "\<not> forced ev" and "buildingIds (snd c) \<inter> readyIds (snd c) = {}"
  shows "buildingIds (snd (tracker_step ev c)) \<inter> readyIds (snd (tracker_step ev c)) = {}"
proof (cases c)
  case (Pair hs st)
  show ?thesis
  proof (cases ev)
    case (Start ident url force)
    with assms Pair show ?thesis
      by (auto simp: startBuilding_def Let_def split: if_splits)
  next
    case (Call n)
    show ?thesis
    proof (cases "n < length hs")
      case True
      with assms Pair Call show ?thesis
        by (cases "hs ! n") (auto simp: Let_def split: if_splits)
    next
      case False
      with assms Pair Call show ?thesis by simp
    qed
  qed
qed

lemma disjoint_run:
  "\<not> list_ex forced evs \<Longrightarrow> buildingIds (snd c) \<inter> readyIds (snd c) = {}
   \<Longrightarrow> buildingIds (snd (tracker_run evs c)) \<inter> readyIds (snd (tracker_run evs c)) = {}"
  unfolding tracker_run_def
  by (induction evs arbitrary: c) (auto simp: disjoint_step)

text \<open>
  C2, as the code has it. Along every interleaving of \<^verbatim>\<open>startBuilding\<close> calls without
  \<^verbatim>\<open>forceRebuild\<close> and of calls of the returned handles, from a state whose two sets
  are disjoint, no key is in \<^verbatim>\<open>buildingIds\<close> and in \<^verbatim>\<open>readyIds\<close> at once. A call with
  \<^verbatim>\<open>forceRebuild\<close> leaves \<^verbatim>\<open>readyIds\<close> as it is and puts the id into
  \<^verbatim>\<open>buildingIds\<close>.
\<close>

theorem building_ready_disjoint_without_force:
  "(\<not> list_ex forced evs \<longrightarrow> buildingIds st \<inter> readyIds st = {} \<longrightarrow>
      buildingIds (snd (tracker_run evs (hs, st))) \<inter> readyIds (snd (tracker_run evs (hs, st))) = {})
   \<and> readyIds (snd (startBuilding ident url True st)) = readyIds st
   \<and> ident \<in> buildingIds (snd (startBuilding ident url True st))"
  using disjoint_run [of evs "(hs, st)"]
  by (auto simp: startBuilding_def Let_def)

theorem building_ready_disjoint_without_force_witness:
  "\<not> list_ex forced [Start ''/a'' None False, Start ''/b'' None False, Call 0]
   \<and> buildingIds initial \<inter> readyIds initial = {}
   \<and> buildingIds (snd (tracker_run [Start ''/a'' None False, Start ''/b'' None False, Call 0]
                          ([], initial)))
       \<inter> readyIds (snd (tracker_run [Start ''/a'' None False, Start ''/b'' None False, Call 0]
                            ([], initial))) = {}"
proof -
  have h1: "\<not> list_ex forced [Start ''/a'' None False, Start ''/b'' None False, Call 0]"
    by simp
  have h2: "buildingIds initial \<inter> readyIds initial = {}"
    by (simp add: initial_def)
  from building_ready_disjoint_without_force
         [of "[Start ''/a'' None False, Start ''/b'' None False, Call 0]" initial "[]"]
       h1 h2
  show ?thesis by blast
qed

text \<open>
  C2 as the specification words it fails: after a build of \<^verbatim>\<open>/a\<close> has finished, a forced
  rebuild of \<^verbatim>\<open>/a\<close> puts the key into \<^verbatim>\<open>buildingIds\<close> while it still is in
  \<^verbatim>\<open>readyIds\<close>.
\<close>

theorem forced_rebuild_counterexample:
  "''/a'' \<in> buildingIds (snd (tracker_run [Start ''/a'' None False, Call 0, Start ''/a'' None True] ([], initial)))
   \<and> ''/a'' \<in> readyIds (snd (tracker_run [Start ''/a'' None False, Call 0, Start ''/a'' None True] ([], initial)))"
  by (simp add: tracker_run_def startBuilding_def initial_def Let_def)

section \<open>The event coalescer and the client bus\<close>

lemma outbox_send:
  "outbox (send a st) c = outbox st c @ (if c \<in> clients st then [a] else [])"
  by (simp add: send_def)

lemma send_fields [simp]:
  "clients (send a st) = clients st" "hmrPayloads (send a st) = hmrPayloads st"
  "turbopackUpdates (send a st) = turbopackUpdates st" "ledger (send a st) = ledger st"
  by (simp_all add: send_def)

lemma clients_send_all [simp]: "clients (foldl (\<lambda>s p. send p s) st ps) = clients st"
  by (induction ps arbitrary: st) simp_all

lemma updates_send_all [simp]:
  "turbopackUpdates (foldl (\<lambda>s p. send p s) st ps) = turbopackUpdates st"
  by (induction ps arbitrary: st) simp_all

lemma outbox_send_all:
  "outbox (foldl (\<lambda>s p. send p s) st ps) c = outbox st c @ (if c \<in> clients st then ps else [])"
  by (induction ps arbitrary: st) (simp_all add: outbox_send)


lemma flush_clear:
  assumes "\<not> ledger_blocked (ledger st)"
  shows "hmrPayloads (sendEnqueuedMessages st) = []"
    and "turbopackUpdates (sendEnqueuedMessages st) = []"
    and "outbox (sendEnqueuedMessages st) c =
           outbox st c @ (if c \<in> clients st then pending_messages st else [])"
  using assms
  by (simp_all add: sendEnqueuedMessages_def Let_def outbox_send outbox_send_all pending_messages_def)





lemma distinct_map_set: "distinct (map fst m) \<Longrightarrow> distinct (map fst (map_set k v m))"
proof (induction m)
  case Nil
  show ?case by simp
next
  case (Cons p m)
  obtain k' v' where p: "p = (k', v')" by (cases p)
  show ?case
  proof (cases "k' = k")
    case True
    with p Cons.prems show ?thesis by simp
  next
    case False
    with p Cons keys_map_set [of k v m] show ?thesis by simp
  qed
qed

lemma map_of_map_set: "map_of (map_set k v m) = (map_of m)(k \<mapsto> v)"
  by (induction m) auto

lemma enqueue_distinct: "distinct (map fst m) \<Longrightarrow> distinct (map fst (enqueue m kvs))"
  unfolding enqueue_def by (induction kvs arbitrary: m) (simp_all add: distinct_map_set)

lemma enqueue_keys: "fst ` set (enqueue m kvs) = fst ` set m \<union> fst ` set kvs"
  unfolding enqueue_def by (induction kvs arbitrary: m) (auto simp: keys_map_set)

lemma enqueue_map_of: "map_of (enqueue m kvs) = map_of (rev kvs @ m)"
  unfolding enqueue_def
proof (induction kvs arbitrary: m)
  case Nil
  show ?case by simp
next
  case (Cons kv kvs)
  have "map_of (foldl (\<lambda>m kv. map_set (fst kv) (snd kv) m) (map_set (fst kv) (snd kv) m) kvs)
          = map_of (rev kvs @ map_set (fst kv) (snd kv) m)"
    by (rule Cons.IH)
  also have "\<dots> = map_of (rev kvs @ kv # m)"
    by (simp add: map_of_map_set)
  finally show ?case by simp
qed

lemma sendHmrAll_fields:
  "hmrPayloads (sendHmrAll calls st) = enqueue (hmrPayloads st) (map coalescing_entry calls)"
  "turbopackUpdates (sendHmrAll calls st) = turbopackUpdates st"
  "ledger (sendHmrAll calls st) = ledger st"
  "clients (sendHmrAll calls st) = clients st"
  "outbox (sendHmrAll calls st) = outbox st"
  unfolding sendHmrAll_def enqueue_def
  by (induction calls arbitrary: st)
     (simp_all add: sendHmr_def sendEnqueuedMessagesDebounce_def coalescing_entry_def)

text \<open>
  C7. From empty queues and with no bucket blocking, the flush after any list of
  \<^verbatim>\<open>sendHmr\<close> calls sends each connected socket one message per distinct coalescing
  key \<^verbatim>\<open>`${key}:${id}`\<close> of the calls: as many messages as there are distinct keys,
  and the message of a key is the payload of the last call with that key.
\<close>

theorem flush_one_message_per_key:
  assumes "hmrPayloads st = []" and "turbopackUpdates st = []"
    and "\<not> ledger_blocked (ledger st)"
  shows "\<exists>sent.
           (\<forall>c. outbox (sendEnqueuedMessages (sendHmrAll calls st)) c =
                  outbox st c @ (if c \<in> clients st then map snd sent else []))
           \<and> distinct (map fst sent)
           \<and> fst ` set sent = fst ` coalescing_entry ` set calls
           \<and> length sent = card (fst ` coalescing_entry ` set calls)
           \<and> map_of sent = map_of (rev (map coalescing_entry calls))"
proof -
  let ?q = "hmrPayloads (sendHmrAll calls st)"
  have q: "?q = enqueue [] (map coalescing_entry calls)"
    using assms(1) by (simp add: sendHmrAll_fields)
  have unblocked: "\<not> ledger_blocked (ledger (sendHmrAll calls st))"
    using assms(3) by (simp add: sendHmrAll_fields)
  have out: "\<forall>c. outbox (sendEnqueuedMessages (sendHmrAll calls st)) c =
                  outbox st c @ (if c \<in> clients st then map snd ?q else [])"
    using flush_clear(3) [OF unblocked] assms(2)
    by (simp add: pending_messages_def sendHmrAll_fields map_values_def)
  have d: "distinct (map fst ?q)"
    unfolding q by (rule enqueue_distinct) simp
  have k: "fst ` set ?q = fst ` coalescing_entry ` set calls"
    unfolding q by (simp add: enqueue_keys)
  have "length ?q = length (map fst ?q)" by simp
  also have "\<dots> = card (set (map fst ?q))"
    using d by (rule distinct_card [symmetric])
  also have "\<dots> = card (fst ` coalescing_entry ` set calls)"
    using k by simp
  finally have l: "length ?q = card (fst ` coalescing_entry ` set calls)" .
  have m: "map_of ?q = map_of (rev (map coalescing_entry calls))"
    unfolding q by (simp add: enqueue_map_of)
  from out d k l m show ?thesis by blast
qed

theorem flush_one_message_per_key_witness:
  "hmrPayloads two_clients = [] \<and> turbopackUpdates two_clients = []
   \<and> \<not> ledger_blocked (ledger two_clients)
   \<and> (\<exists>sent.
         (\<forall>c. outbox (sendEnqueuedMessages
                        (sendHmrAll
                           [(''endpoint-change'', ''/a (server)'', SERVER_ONLY_CHANGES [''/a'']),
                            (''endpoint-change'', ''/b (client)'', CLIENT_CHANGES),
                            (''endpoint-change'', ''/a (server)'', RELOAD_PAGE)] two_clients)) c =
                outbox two_clients c @ (if c \<in> clients two_clients then map snd sent else []))
         \<and> length sent =
             card (fst ` coalescing_entry `
                     set [(''endpoint-change'', ''/a (server)'', SERVER_ONLY_CHANGES [''/a'']),
                          (''endpoint-change'', ''/b (client)'', CLIENT_CHANGES),
                          (''endpoint-change'', ''/a (server)'', RELOAD_PAGE)])
         \<and> map_of sent ''endpoint-change:/a (server)'' = Some RELOAD_PAGE)"
proof -
  have h1: "hmrPayloads two_clients = []"
    by (simp add: two_clients_def onHMR_def send_def client_send_def initial_def Let_def)
  have h2: "turbopackUpdates two_clients = []"
    by (simp add: two_clients_def onHMR_def send_def client_send_def initial_def Let_def)
  have h3: "\<not> ledger_blocked (ledger two_clients)"
    by (simp add: two_clients_def onHMR_def send_def client_send_def initial_def Let_def
                  ledger_blocked_def map_values_def)
  from flush_one_message_per_key
         [OF h1 h2 h3,
          of "[(''endpoint-change'', ''/a (server)'', SERVER_ONLY_CHANGES [''/a'']),
               (''endpoint-change'', ''/b (client)'', CLIENT_CHANGES),
               (''endpoint-change'', ''/a (server)'', RELOAD_PAGE)]"]
  obtain sent where
    s: "\<forall>c. outbox (sendEnqueuedMessages
                        (sendHmrAll
                           [(''endpoint-change'', ''/a (server)'', SERVER_ONLY_CHANGES [''/a'']),
                            (''endpoint-change'', ''/b (client)'', CLIENT_CHANGES),
                            (''endpoint-change'', ''/a (server)'', RELOAD_PAGE)] two_clients)) c =
                outbox two_clients c @ (if c \<in> clients two_clients then map snd sent else [])"
       "length sent =
             card (fst ` coalescing_entry `
                     set [(''endpoint-change'', ''/a (server)'', SERVER_ONLY_CHANGES [''/a'']),
                          (''endpoint-change'', ''/b (client)'', CLIENT_CHANGES),
                          (''endpoint-change'', ''/a (server)'', RELOAD_PAGE)])"
       "map_of sent =
          map_of (rev (map coalescing_entry
                     [(''endpoint-change'', ''/a (server)'', SERVER_ONLY_CHANGES [''/a'']),
                      (''endpoint-change'', ''/b (client)'', CLIENT_CHANGES),
                      (''endpoint-change'', ''/a (server)'', RELOAD_PAGE)]))"
    by blast
  from s(3) have "map_of sent ''endpoint-change:/a (server)'' = Some RELOAD_PAGE"
    by (simp add: coalescing_entry_def)
  with h1 h2 h3 s(1) s(2) show ?thesis by blast
qed

lemma recordIssues_fields [simp]:
  "turbopackUpdates (fst (recordIssues e n r t st)) = turbopackUpdates st"
  "hmrPayloads (fst (recordIssues e n r t st)) = hmrPayloads st"
  "clients (fst (recordIssues e n r t st)) = clients st"
  "outbox (fst (recordIssues e n r t st)) = outbox st"
  by (simp_all add: recordIssues_def split: prod.splits)

text \<open>
  C5, as the code has it. When a socket subscribes to the raw updates of an id it does
  not hold yet, the first item of the engine's stream is dropped and the second, unless
  its type is \<^verbatim>\<open>issues\<close>, is appended unchanged to the batch \<^verbatim>\<open>turbopackUpdates\<close>.
  The next flush that no bucket blocks sends that batch through \<^verbatim>\<open>hotReloader.send\<close>:
  to every connected socket, not to the subscriber alone.
\<close>

theorem raw_update_is_broadcast:
  assumes "\<not> map_has (case map_get (clientToHmrSubscription st) c of None \<Rightarrow> [] | Some m \<Rightarrow> m) ident"
  shows "turbopackUpdates (subscribeToHmrEvents e ident c [Item first, Item second] st) =
           turbopackUpdates st @ (if update_type second = ''issues'' then [] else [second])
         \<and> (update_type second \<noteq> ''issues''
              \<and> \<not> ledger_blocked (ledger (subscribeToHmrEvents e ident c [Item first, Item second] st))
            \<longrightarrow> (\<forall>c'. outbox (sendEnqueuedMessages
                                 (subscribeToHmrEvents e ident c [Item first, Item second] st)) c' =
                        outbox st c' @
                          (if c' \<in> clients st
                           then map_values (hmrPayloads st)
                                  @ [TURBOPACK_MESSAGE (turbopackUpdates st @ [second])]
                           else [])))"
proof -
  let ?st1 = "subscribeToHmrEvents e ident c [Item first, Item second] st"
  have u: "turbopackUpdates ?st1 =
             turbopackUpdates st @ (if update_type second = ''issues'' then [] else [second])"
    using assms
    by (simp add: subscribeToHmrEvents_def Let_def sendTurbopackMessage_def
                  sendEnqueuedMessagesDebounce_def)
  have f: "hmrPayloads ?st1 = hmrPayloads st" "clients ?st1 = clients st" "outbox ?st1 = outbox st"
    using assms
    by (simp_all add: subscribeToHmrEvents_def Let_def sendTurbopackMessage_def
                  sendEnqueuedMessagesDebounce_def)
  show ?thesis
  proof (intro conjI impI allI)
    show "turbopackUpdates ?st1 =
             turbopackUpdates st @ (if update_type second = ''issues'' then [] else [second])"
      by (rule u)
  next
    fix c'
    assume a: "update_type second \<noteq> ''issues'' \<and> \<not> ledger_blocked (ledger ?st1)"
    then have "outbox (sendEnqueuedMessages ?st1) c' =
                 outbox ?st1 c' @ (if c' \<in> clients ?st1 then pending_messages ?st1 else [])"
      by (intro flush_clear(3)) simp
    with a u f show "outbox (sendEnqueuedMessages ?st1) c' =
                        outbox st c' @
                          (if c' \<in> clients st
                           then map_values (hmrPayloads st)
                                  @ [TURBOPACK_MESSAGE (turbopackUpdates st @ [second])]
                           else [])"
      by (simp add: pending_messages_def)
  qed
qed

theorem raw_update_is_broadcast_witness:
  "\<not> map_has (case map_get (clientToHmrSubscription two_clients) 1 of
                 None \<Rightarrow> [] | Some m \<Rightarrow> m) ''/x''
   \<and> turbopackUpdates
        (subscribeToHmrEvents example_env ''/x'' 1
           [Item (example_update ''partial'' ''first''),
            Item (example_update ''partial'' ''second'')] two_clients) =
      turbopackUpdates two_clients @ [example_update ''partial'' ''second'']"
proof -
  have h: "\<not> map_has (case map_get (clientToHmrSubscription two_clients) 1 of
                 None \<Rightarrow> [] | Some m \<Rightarrow> m) ''/x''"
    by (simp add: two_clients_def onHMR_def send_def client_send_def initial_def Let_def
                  map_get_def map_has_def)
  have t: "update_type (example_update ''partial'' ''second'') \<noteq> ''issues''"
    by (simp add: example_update_def)
  from raw_update_is_broadcast
         [OF h, of example_env "example_update ''partial'' ''first''"
                   "example_update ''partial'' ''second''"] h t
  show ?thesis by simp
qed

text \<open>
  C5 as the specification words it fails: with two sockets connected, socket 1 subscribes
  to \<^verbatim>\<open>/x\<close>; after the flush the second item of the stream is in the outbox of socket 2,
  which did not subscribe.
\<close>

theorem raw_update_reaches_other_client:
  "outbox
     (timerFires
        (subscribeToHmrEvents example_env ''/x'' 1
           [Item (example_update ''partial'' ''first''),
            Item (example_update ''partial'' ''second'')] two_clients)) 2 =
   [TURBOPACK_CONNECTED, SYNC [], TURBOPACK_MESSAGE [example_update ''partial'' ''second'']]"
  by (simp add: two_clients_def onHMR_def send_def client_send_def initial_def
                subscribeToHmrEvents_def map_get_def map_has_def Let_def recordIssues_def
                processIssues_def sendTurbopackMessage_def sendEnqueuedMessagesDebounce_def
                timerFires_def sendEnqueuedMessages_def ledger_blocked_def map_values_def
                sync_errors_def example_update_def)

section \<open>Ensuring a page\<close>

lemma sublist_join: "x \<in> set xs \<Longrightarrow> sublist x (join sep xs)"
proof (induction sep xs rule: join.induct)
  case (1 sep)
  then show ?case by simp
next
  case (2 sep y)
  then show ?case by simp
next
  case (3 sep y z zs)
  show ?case
  proof (cases "x = y")
    case True
    then show ?thesis by (simp add: sublist_append_rightI)
  next
    case False
    with 3 have "sublist x (join sep (z # zs))" by simp
    then obtain ps ss where "join sep (z # zs) = ps @ x @ ss"
      by (auto simp: sublist_def)
    then have "join sep (y # z # zs) = (y @ sep @ ps) @ x @ ss" by simp
    then show ?thesis unfolding sublist_def by blast
  qed
qed


lemma blocking_error_thrown:
  assumes "issue \<in> set (issues r)" and "severity issue = ''error''"
    and "\<not> in_node_modules (filePath issue)"
  shows "\<exists>msg. snd (processIssues e l name r True) = Some (ModuleBuildError msg)
               \<and> str_includes msg (formatIssue e issue)"
proof -
  let ?rel = "snd (collectIssues e (issues r) ([], []))"
  have b: "blocking issue" using assms(2) by (simp add: blocking_def)
  have "set ?rel = formatIssue e ` {i \<in> set (issues r). blocking i \<and> \<not> in_node_modules (filePath i)}"
    unfolding collect_snd set_foldl_set_add by auto
  with assms(1,3) b have m: "formatIssue e issue \<in> set ?rel" by blast
  then have ne: "?rel \<noteq> []" by auto
  from m have "sublist (formatIssue e issue) (join [newline, newline] ?rel)"
    by (rule sublist_join)
  with ne show ?thesis
    by (simp add: processIssues_snd str_includes_def)
qed

lemma recordIssues_snd: "snd (recordIssues e n r t st) = snd (processIssues e (ledger st) n r t)"
  by (simp add: recordIssues_def split: prod.splits)

lemma recordIssues_tracker [simp]:
  "buildingIds (fst (recordIssues e n r t st)) = buildingIds st"
  "readyIds (fst (recordIssues e n r t st)) = readyIds st"
  "consoleStore (fst (recordIssues e n r t st)) = consoleStore st"
  "written (fst (recordIssues e n r t st)) = written st"
  "curEntries (fst (recordIssues e n r t st)) = curEntries st"
  "curAppEntries (fst (recordIssues e n r t st)) = curAppEntries st"
  "globalEntries (fst (recordIssues e n r t st)) = globalEntries st"
  by (simp_all add: recordIssues_def split: prod.splits)

lemma changeSubscription_tracker [simp]:
  "buildingIds (changeSubscription p ty i ep mk st) = buildingIds st"
  "readyIds (changeSubscription p ty i ep mk st) = readyIds st"
  "consoleStore (changeSubscription p ty i ep mk st) = consoleStore st"
  "written (changeSubscription p ty i ep mk st) = written st"
  "curEntries (changeSubscription p ty i ep mk st) = curEntries st"
  "curAppEntries (changeSubscription p ty i ep mk st) = curAppEntries st"
  "globalEntries (changeSubscription p ty i ep mk st) = globalEntries st"
  "ledger (changeSubscription p ty i ep mk st) = ledger st"
  by (simp_all add: changeSubscription_def Let_def split: option.splits)

lemma writeEndpoint_tracker [simp]:
  "fst (writeEndpoint e ep st) = writeToDisk e ep"
  "buildingIds (snd (writeEndpoint e ep st)) = buildingIds st"
  "readyIds (snd (writeEndpoint e ep st)) = readyIds st"
  "consoleStore (snd (writeEndpoint e ep st)) = consoleStore st"
  "written (snd (writeEndpoint e ep st)) = written st @ [ep]"
  "curEntries (snd (writeEndpoint e ep st)) = curEntries st"
  "curAppEntries (snd (writeEndpoint e ep st)) = curAppEntries st"
  "globalEntries (snd (writeEndpoint e ep st)) = globalEntries st"
  "ledger (snd (writeEndpoint e ep st)) = ledger st"
  by (simp_all add: writeEndpoint_def)

lemma writeGlobal_tracker [simp]:
  "buildingIds (writeGlobal e n ep st) = buildingIds st"
  "readyIds (writeGlobal e n ep st) = readyIds st"
  "consoleStore (writeGlobal e n ep st) = consoleStore st"
  "written (writeGlobal e n ep st) = written st @ option_list ep"
  "curEntries (writeGlobal e n ep st) = curEntries st"
  "curAppEntries (writeGlobal e n ep st) = curAppEntries st"
  "globalEntries (writeGlobal e n ep st) = globalEntries st"
  by (simp_all add: writeGlobal_def option_list_def case_prod_beta split: option.splits)

lemma subscribeDocument_tracker [simp]:
  "buildingIds (subscribeDocument st) = buildingIds st"
  "readyIds (subscribeDocument st) = readyIds st"
  "consoleStore (subscribeDocument st) = consoleStore st"
  "written (subscribeDocument st) = written st"
  "curEntries (subscribeDocument st) = curEntries st"
  "curAppEntries (subscribeDocument st) = curAppEntries st"
  "globalEntries (subscribeDocument st) = globalEntries st"
  by (simp_all add: subscribeDocument_def split: option.splits)

lemma startBuilding_frame [simp]:
  "readyIds (snd (startBuilding i u f st)) = readyIds st"
  "written (snd (startBuilding i u f st)) = written st"
  "curEntries (snd (startBuilding i u f st)) = curEntries st"
  "curAppEntries (snd (startBuilding i u f st)) = curAppEntries st"
  "globalEntries (snd (startBuilding i u f st)) = globalEntries st"
  "ledger (snd (startBuilding i u f st)) = ledger st"
  by (simp_all add: startBuilding_def Let_def)

lemma callHandle_frame [simp]:
  "written (callHandle h st) = written st"
  "curEntries (callHandle h st) = curEntries st"
  "curAppEntries (callHandle h st) = curAppEntries st"
  "globalEntries (callHandle h st) = globalEntries st"
  "ledger (callHandle h st) = ledger st"
  by (cases h; simp add: Let_def)+

text \<open>Whatever runs between \<^verbatim>\<open>startBuilding\<close> and the call of its handle, if it leaves
  the two sets alone, the id is ready afterwards.\<close>

lemma finish_makes_ready:
  assumes "buildingIds st' = buildingIds (snd (startBuilding i u False st))"
    and "readyIds st' = readyIds st"
  shows "i \<in> readyIds (callHandle (fst (startBuilding i u False st)) st')"
  using assms by (auto simp: startBuilding_def Let_def split: if_splits)

lemma start_when_ready: "i \<in> readyIds st \<Longrightarrow> startBuilding i u False st = (Inert, st)"
  by (simp add: startBuilding_def)


lemma ensurePage_found:
  assumes "\<not> blockedPage e opts" and "resolvePage e opts = Inr page" and "page \<noteq> ''/_error''"
    and "lookupRoute opts page st = Some route" and "\<not> (isApp opts \<and> is_page_route route)"
  shows "ensurePage e opts st =
           handleRouteType e page (ensurePathname opts) route (requestUrl opts) st"
  using assms by (auto simp: ensurePage_def Let_def)

lemma throwing_route_cases:
  assumes "throws_on_issue route" and "materialized_endpoint page route = Some ep"
  obtains (app_route) name where "route = AppRoute name ep"
  | (app_page) pages pr where "route = AppPageRoute pages" "selectPage page pages = Some pr"
      "htmlEndpoint pr = ep"
  using assms by (cases route) auto

lemma handleRouteType_throws:
  assumes "throws_on_issue route" and "materialized_endpoint page route = Some ep"
    and "issue \<in> set (issues (writeToDisk e ep))" and "severity issue = ''error''"
    and "\<not> in_node_modules (filePath issue)"
  shows "\<exists>msg. snd (handleRouteType e page pathname route url st) = Some (ModuleBuildError msg)
               \<and> str_includes msg (formatIssue e issue)
               \<and> pathname \<in> readyIds (fst (handleRouteType e page pathname route url st))"
  using assms(1,2)
proof (cases rule: throwing_route_cases)
  case (app_route name)
  let ?s1 = "snd (startBuilding pathname url False st)"
  let ?s2 = "snd (writeEndpoint e ep ?s1)"
  let ?r = "recordIssues e page (writeToDisk e ep) True ?s2"
  have res: "handleRouteType e page pathname route url st =
               (callHandle (fst (startBuilding pathname url False st)) (fst ?r), snd ?r)"
    using app_route by (simp add: case_prod_beta Let_def)
  obtain msg where m: "snd ?r = Some (ModuleBuildError msg)"
      "str_includes msg (formatIssue e issue)"
    using blocking_error_thrown [OF assms(3,4,5)] unfolding recordIssues_snd by blast
  have "pathname \<in> readyIds (callHandle (fst (startBuilding pathname url False st)) (fst ?r))"
    by (rule finish_makes_ready) simp_all
  with m res show ?thesis by simp
next
  case (app_page pages pr)
  let ?s1 = "snd (startBuilding pathname url False st)"
  let ?s2 = "snd (writeEndpoint e ep ?s1)"
  let ?s3 = "changeSubscription page server True (Some (rscEndpoint pr)) (ServerComponent page) ?s2"
  let ?r = "recordIssues e page (writeToDisk e ep) True ?s3"
  have res: "handleRouteType e page pathname route url st =
               (callHandle (fst (startBuilding pathname url False st)) (fst ?r), snd ?r)"
    using app_page by (simp add: case_prod_beta Let_def)
  obtain msg where m: "snd ?r = Some (ModuleBuildError msg)"
      "str_includes msg (formatIssue e issue)"
    using blocking_error_thrown [OF assms(3,4,5)] unfolding recordIssues_snd by blast
  have "pathname \<in> readyIds (callHandle (fst (startBuilding pathname url False st)) (fst ?r))"
    by (rule finish_makes_ready) simp_all
  with m res show ?thesis by simp
qed

text \<open>
  C1, as the code has it. Let \<^verbatim>\<open>ensurePage\<close> reach a route of kind \<^verbatim>\<open>app-page\<close> or
  \<^verbatim>\<open>app-route\<close>, and let \<^verbatim>\<open>writeToDisk\<close> on the unit's endpoint report an issue of
  severity \<^verbatim>\<open>error\<close> whose path is not under \<^verbatim>\<open>node_modules\<close>. Then \<^verbatim>\<open>ensurePage\<close>
  throws a \<^verbatim>\<open>ModuleBuildError\<close> whose message contains the formatted issue. The
  \<^verbatim>\<open>finally\<close> block of \<^verbatim>\<open>handleRouteType\<close> calls the completion handle on this path
  too, so after the throw the unit's key is a member of \<^verbatim>\<open>readyIds\<close>.
\<close>

theorem ensurePage_throws_blocking_issue:
  assumes "\<not> blockedPage e opts" and "resolvePage e opts = Inr page" and "page \<noteq> ''/_error''"
    and "lookupRoute opts page st = Some route" and "throws_on_issue route"
    and "materialized_endpoint page route = Some ep"
    and "issue \<in> set (issues (writeToDisk e ep))" and "severity issue = ''error''"
    and "\<not> in_node_modules (filePath issue)"
  shows "\<exists>msg. snd (ensurePage e opts st) = Some (ModuleBuildError msg)
               \<and> str_includes msg (formatIssue e issue)
               \<and> ensurePathname opts \<in> readyIds (fst (ensurePage e opts st))"
proof -
  have "\<not> (isApp opts \<and> is_page_route route)"
    using assms(5) by (cases route) simp_all
  with assms(1-4)
  have "ensurePage e opts st =
          handleRouteType e page (ensurePathname opts) route (requestUrl opts) st"
    by (rule ensurePage_found)
  with handleRouteType_throws [OF assms(5-9), of "ensurePathname opts" "requestUrl opts" st]
  show ?thesis by simp
qed

theorem ensurePage_throws_blocking_issue_witness:
  "lookupRoute broken_request ''/broken/page'' served = Some broken_route
   \<and> materialized_endpoint ''/broken/page'' broken_route = Some (Endpoint 7)
   \<and> broken_issue \<in> set (issues (writeToDisk broken_env (Endpoint 7)))
   \<and> (\<exists>msg. snd (ensurePage broken_env broken_request served) = Some (ModuleBuildError msg)
          \<and> str_includes msg (formatIssue broken_env broken_issue)
          \<and> ensurePathname broken_request
               \<in> readyIds (fst (ensurePage broken_env broken_request served)))"
proof -
  have h1: "\<not> blockedPage broken_env broken_request" by code_simp
  have h2: "resolvePage broken_env broken_request = Inr ''/broken/page''" by code_simp
  have h3: "''/broken/page'' \<noteq> ''/_error''" by simp
  have h4: "lookupRoute broken_request ''/broken/page'' served = Some broken_route" by code_simp
  have h5: "throws_on_issue broken_route" by code_simp
  have h6: "materialized_endpoint ''/broken/page'' broken_route = Some (Endpoint 7)" by code_simp
  have h7: "broken_issue \<in> set (issues (writeToDisk broken_env (Endpoint 7)))"
    by (simp add: broken_env_def example_env_def broken_result_def)
  have h8: "severity broken_issue = ''error''" by code_simp
  have h9: "\<not> in_node_modules (filePath broken_issue)" by code_simp
  from ensurePage_throws_blocking_issue [OF h1 h2 h3 h4 h5 h6 h7 h8 h9] h4 h6 h7
  show ?thesis by blast
qed

text \<open>
  C1 as the specification words it fails in its last part: the request for the broken app
  page throws the error with the formatted issue, and the key \<^verbatim>\<open>/broken\<close> is in
  \<^verbatim>\<open>readyIds\<close> after the throw.
\<close>

theorem broken_page_is_ready_after_throw:
  "outcome (ensurePage broken_env broken_request served) =
     (Some (ModuleBuildError
              (''./app/broken/page.tsx'' @ [newline] @ ''Unexpected token'' @ [newline])),
      {''/broken''}, [Endpoint 7])"
  by code_simp

lemma handleRouteType_when_ready:
  assumes "pathname \<in> readyIds st" and "materialized_endpoint page route = Some ep"
  shows "written (fst (handleRouteType e page pathname route url st)) =
           written st @ shell_endpoints route st @ [ep]"
    and "readyIds (fst (handleRouteType e page pathname route url st)) = readyIds st"
    and "buildingIds (fst (handleRouteType e page pathname route url st)) = buildingIds st"
    and "consoleStore (fst (handleRouteType e page pathname route url st)) = consoleStore st"
    and "curEntries (fst (handleRouteType e page pathname route url st)) = curEntries st"
    and "curAppEntries (fst (handleRouteType e page pathname route url st)) = curAppEntries st"
    and "globalEntries (fst (handleRouteType e page pathname route url st)) = globalEntries st"
proof -
  have "written (fst (handleRouteType e page pathname route url st)) =
           written st @ shell_endpoints route st @ [ep]
        \<and> readyIds (fst (handleRouteType e page pathname route url st)) = readyIds st
        \<and> buildingIds (fst (handleRouteType e page pathname route url st)) = buildingIds st
        \<and> consoleStore (fst (handleRouteType e page pathname route url st)) = consoleStore st
        \<and> curEntries (fst (handleRouteType e page pathname route url st)) = curEntries st
        \<and> curAppEntries (fst (handleRouteType e page pathname route url st)) = curAppEntries st
        \<and> globalEntries (fst (handleRouteType e page pathname route url st)) = globalEntries st"
    using assms
    by (cases route)
       (auto simp: start_when_ready case_prod_beta Let_def split: option.splits)
  then show
    "written (fst (handleRouteType e page pathname route url st)) =
           written st @ shell_endpoints route st @ [ep]"
    "readyIds (fst (handleRouteType e page pathname route url st)) = readyIds st"
    "buildingIds (fst (handleRouteType e page pathname route url st)) = buildingIds st"
    "consoleStore (fst (handleRouteType e page pathname route url st)) = consoleStore st"
    "curEntries (fst (handleRouteType e page pathname route url st)) = curEntries st"
    "curAppEntries (fst (handleRouteType e page pathname route url st)) = curAppEntries st"
    "globalEntries (fst (handleRouteType e page pathname route url st)) = globalEntries st"
    by simp_all
qed


lemma lookupRoute_same_directory:
  "curEntries st' = curEntries st \<Longrightarrow> curAppEntries st' = curAppEntries st
   \<Longrightarrow> lookupRoute opts page st' = lookupRoute opts page st"
  by (simp add: lookupRoute_def split: option.splits)

lemma shell_endpoints_same_globals:
  "globalEntries st' = globalEntries st \<Longrightarrow> shell_endpoints route st' = shell_endpoints route st"
  by (cases route) simp_all

lemma lookupRoute_absent:
  "\<not> map_has (curEntries st) (lookupKey opts page)
   \<Longrightarrow> \<not> map_has (curAppEntries st) (lookupKey opts page)
   \<Longrightarrow> lookupRoute opts page st = None"
  by (auto simp: lookupRoute_def lookupKey_def map_has_def map_get_def split: option.splits)

text \<open>\<^verbatim>\<open>handleRouteType\<close> leaves the directory and the global entries alone, and a
  unit whose endpoint it writes is ready afterwards.\<close>

lemma handleRouteType_directory:
  "curEntries (fst (handleRouteType e page pathname route url st)) = curEntries st
   \<and> curAppEntries (fst (handleRouteType e page pathname route url st)) = curAppEntries st
   \<and> globalEntries (fst (handleRouteType e page pathname route url st)) = globalEntries st"
  by (cases route) (auto simp: case_prod_beta Let_def split: option.splits)

lemma handleRouteType_makes_ready:
  assumes "materialized_endpoint page route = Some ep"
  shows "pathname \<in> readyIds (fst (handleRouteType e page pathname route url st))"
proof (cases route)
  case (Page html data)
  show ?thesis
    unfolding Page by (simp add: case_prod_beta Let_def) (rule finish_makes_ready, simp_all)
next
  case (PageApi ep')
  show ?thesis
    unfolding PageApi by (simp add: case_prod_beta Let_def) (rule finish_makes_ready, simp_all)
next
  case (AppPageRoute pages)
  with assms obtain pr where "selectPage page pages = Some pr" by auto
  then show ?thesis
    unfolding AppPageRoute
    by (simp add: case_prod_beta Let_def) (rule finish_makes_ready, simp_all)
next
  case (AppRoute name ep')
  show ?thesis
    unfolding AppRoute by (simp add: case_prod_beta Let_def) (rule finish_makes_ready, simp_all)
next
  case (OtherRoute ty)
  with assms show ?thesis by simp
qed

text \<open>One call of \<^verbatim>\<open>ensurePage\<close> for a unit whose key is ready.\<close>

lemma ensurePage_when_ready:
  assumes "\<not> blockedPage e opts" and "resolvePage e opts = Inr page" and "page \<noteq> ''/_error''"
    and "lookupRoute opts page st = Some route" and "\<not> (isApp opts \<and> is_page_route route)"
    and "materialized_endpoint page route = Some ep"
    and "ensurePathname opts \<in> readyIds st"
  shows "written (fst (ensurePage e opts st)) = written st @ shell_endpoints route st @ [ep]"
    and "readyIds (fst (ensurePage e opts st)) = readyIds st"
    and "buildingIds (fst (ensurePage e opts st)) = buildingIds st"
    and "consoleStore (fst (ensurePage e opts st)) = consoleStore st"
    and "lookupRoute opts page (fst (ensurePage e opts st)) = Some route"
    and "shell_endpoints route (fst (ensurePage e opts st)) = shell_endpoints route st"
proof -
  have found: "ensurePage e opts st =
                 handleRouteType e page (ensurePathname opts) route (requestUrl opts) st"
    using assms(1-5) by (rule ensurePage_found)
  note h = handleRouteType_when_ready [OF assms(7,6), of e "requestUrl opts"]
  show "written (fst (ensurePage e opts st)) = written st @ shell_endpoints route st @ [ep]"
    unfolding found by (rule h(1))
  show "readyIds (fst (ensurePage e opts st)) = readyIds st"
    unfolding found by (rule h(2))
  show "buildingIds (fst (ensurePage e opts st)) = buildingIds st"
    unfolding found by (rule h(3))
  show "consoleStore (fst (ensurePage e opts st)) = consoleStore st"
    unfolding found by (rule h(4))
  show "lookupRoute opts page (fst (ensurePage e opts st)) = Some route"
    unfolding found using lookupRoute_same_directory [OF h(5) h(6)] assms(4) by simp
  show "shell_endpoints route (fst (ensurePage e opts st)) = shell_endpoints route st"
    unfolding found using h(7) by (rule shell_endpoints_same_globals)
qed

text \<open>The example state in which \<^verbatim>\<open>/about\<close> is ready: the state after one request
  for it.\<close>

lemma about_ready_facts:
  shows "lookupRoute about_request ''/about'' about_ready = Some (Page (Endpoint 1) (Endpoint 2))"
    and "ensurePathname about_request \<in> readyIds about_ready"
    and "''/about'' \<in> readyIds about_ready"
    and "shell_endpoints (Page (Endpoint 1) (Endpoint 2)) about_ready = [Endpoint 3, Endpoint 4]"
proof -
  let ?route = "Page (Endpoint 1) (Endpoint 2)"
  let ?h = "handleRouteType example_env ''/about'' (ensurePathname about_request) ?route
              (requestUrl about_request) served"
  have h1: "\<not> blockedPage example_env about_request" by code_simp
  have h2: "resolvePage example_env about_request = Inr ''/about''" by code_simp
  have h3: "''/about'' \<noteq> ''/_error''" by simp
  have h4: "lookupRoute about_request ''/about'' served = Some ?route" by code_simp
  have h5: "\<not> (isApp about_request \<and> is_page_route ?route)" by code_simp
  have "ensurePage example_env about_request served = ?h"
    using h1 h2 h3 h4 h5 by (rule ensurePage_found)
  then have ar: "about_ready = fst ?h" by (simp add: about_ready_def)
  note dir = handleRouteType_directory
               [of example_env "''/about''" "ensurePathname about_request" ?route
                   "requestUrl about_request" served]
  show "lookupRoute about_request ''/about'' about_ready = Some ?route"
    unfolding ar using lookupRoute_same_directory [of "fst ?h" served] dir h4 by simp
  show r: "ensurePathname about_request \<in> readyIds about_ready"
    unfolding ar by (rule handleRouteType_makes_ready) simp
  have "ensurePathname about_request = ''/about''" by code_simp
  with r show "''/about'' \<in> readyIds about_ready" by simp
  have "shell_endpoints ?route served = [Endpoint 3, Endpoint 4]" by code_simp
  then show "shell_endpoints ?route about_ready = [Endpoint 3, Endpoint 4]"
    unfolding ar using shell_endpoints_same_globals [of "fst ?h" served ?route] dir by simp
qed

text \<open>
  C3, as the code has it. For a unit whose key is in \<^verbatim>\<open>readyIds\<close>, \<^verbatim>\<open>startBuilding\<close>
  returns the inert handle, and that is all the ready check does: \<^verbatim>\<open>handleRouteType\<close>
  goes on to call \<^verbatim>\<open>writeToDisk\<close> on the unit's endpoint. Two calls of \<^verbatim>\<open>ensurePage\<close>
  in a row make two such calls (each after the global endpoints that a page route writes
  first), and leave \<^verbatim>\<open>readyIds\<close>, \<^verbatim>\<open>buildingIds\<close> and the console store as they were.
\<close>

theorem ensurePage_twice_when_ready:
  assumes "\<not> blockedPage e opts" and "resolvePage e opts = Inr page" and "page \<noteq> ''/_error''"
    and "lookupRoute opts page st = Some route" and "\<not> (isApp opts \<and> is_page_route route)"
    and "materialized_endpoint page route = Some ep"
    and "ensurePathname opts \<in> readyIds st"
  shows "written (fst (ensurePage e opts (fst (ensurePage e opts st)))) =
           written st @ shell_endpoints route st @ [ep] @ shell_endpoints route st @ [ep]
         \<and> readyIds (fst (ensurePage e opts (fst (ensurePage e opts st)))) = readyIds st
         \<and> buildingIds (fst (ensurePage e opts (fst (ensurePage e opts st)))) = buildingIds st
         \<and> consoleStore (fst (ensurePage e opts (fst (ensurePage e opts st)))) = consoleStore st"
proof -
  note one = ensurePage_when_ready [OF assms]
  have "ensurePathname opts \<in> readyIds (fst (ensurePage e opts st))"
    using one(2) assms(7) by simp
  note two = ensurePage_when_ready [OF assms(1-3) one(5) assms(5,6) this]
  show ?thesis
    using one(1-4,6) two(1-4) by simp
qed

theorem ensurePage_twice_when_ready_witness:
  "lookupRoute about_request ''/about'' about_ready = Some (Page (Endpoint 1) (Endpoint 2))
   \<and> ensurePathname about_request \<in> readyIds about_ready
   \<and> written (fst (ensurePage example_env about_request
                      (fst (ensurePage example_env about_request about_ready)))) =
       written about_ready
         @ shell_endpoints (Page (Endpoint 1) (Endpoint 2)) about_ready @ [Endpoint 1]
         @ shell_endpoints (Page (Endpoint 1) (Endpoint 2)) about_ready @ [Endpoint 1]"
proof -
  have h1: "\<not> blockedPage example_env about_request" by code_simp
  have h2: "resolvePage example_env about_request = Inr ''/about''" by code_simp
  have h3: "''/about'' \<noteq> ''/_error''" by simp
  have h5: "\<not> (isApp about_request \<and> is_page_route (Page (Endpoint 1) (Endpoint 2)))"
    by code_simp
  have h6: "materialized_endpoint ''/about'' (Page (Endpoint 1) (Endpoint 2)) = Some (Endpoint 1)"
    by simp
  from ensurePage_twice_when_ready
         [OF h1 h2 h3 about_ready_facts(1) h5 h6 about_ready_facts(2)]
       about_ready_facts(1,2)
  show ?thesis by blast
qed

text \<open>
  C3 as the specification words it fails: with \<^verbatim>\<open>/about\<close> ready, two calls of
  \<^verbatim>\<open>ensurePage\<close> in a row call \<^verbatim>\<open>writeToDisk\<close> on its html endpoint twice.
\<close>

theorem ready_page_is_written_twice:
  "''/about'' \<in> readyIds about_ready
   \<and> written (fst (ensurePage example_env about_request
                      (fst (ensurePage example_env about_request about_ready)))) =
       written about_ready
         @ [Endpoint 3, Endpoint 4, Endpoint 1, Endpoint 3, Endpoint 4, Endpoint 1]"
proof -
  have h1: "\<not> blockedPage example_env about_request" by code_simp
  have h2: "resolvePage example_env about_request = Inr ''/about''" by code_simp
  have h3: "''/about'' \<noteq> ''/_error''" by simp
  have h5: "\<not> (isApp about_request \<and> is_page_route (Page (Endpoint 1) (Endpoint 2)))"
    by code_simp
  have h6: "materialized_endpoint ''/about'' (Page (Endpoint 1) (Endpoint 2)) = Some (Endpoint 1)"
    by simp
  note one = ensurePage_when_ready [OF h1 h2 h3 about_ready_facts(1) h5 h6 about_ready_facts(2)]
  have "ensurePathname about_request
          \<in> readyIds (fst (ensurePage example_env about_request about_ready))"
    using one(2) about_ready_facts(2) by simp
  note two = ensurePage_when_ready [OF h1 h2 h3 one(5) h5 h6 this]
  show ?thesis
    using about_ready_facts(3,4) one(1,6) two(1) by simp
qed

text \<open>
  C9, as the code has it. Let the input page not be blocked, let the page of the route
  definition not be \<^verbatim>\<open>/_error\<close>, and let the lookup find no route. Then \<^verbatim>\<open>ensurePage\<close>
  changes nothing; it returns for the six optional pages and throws
  \<^verbatim>\<open>PageNotFoundError\<close> with \<^verbatim>\<open>route not found\<close> for every other page. The lookup
  finds no route, in particular, when its key has no entry in either map
  (\<open>lookupRoute_absent\<close>).
\<close>

theorem ensurePage_route_missing:
  assumes "\<not> blockedPage e opts" and "resolvePage e opts = Inr page" and "page \<noteq> ''/_error''"
    and "lookupRoute opts page st = None"
  shows "ensurePage e opts st =
           (st, if page \<in> set optional_pages then None
                else Some (PageNotFoundError (''route not found '' @ page)))"
  using assms by (simp add: ensurePage_def Let_def)

theorem ensurePage_route_missing_witness:
  "lookupRoute optional_request ''/middleware'' served = None
   \<and> ensurePage example_env optional_request served = (served, None)
   \<and> lookupRoute missing_request ''/missing'' served = None
   \<and> ensurePage example_env missing_request served =
       (served, Some (PageNotFoundError ''route not found /missing''))"
proof -
  have a1: "\<not> blockedPage example_env optional_request" by code_simp
  have a2: "resolvePage example_env optional_request = Inr ''/middleware''" by code_simp
  have a3: "''/middleware'' \<noteq> ''/_error''" by simp
  have a4: "lookupRoute optional_request ''/middleware'' served = None" by code_simp
  have b1: "\<not> blockedPage example_env missing_request" by code_simp
  have b2: "resolvePage example_env missing_request = Inr ''/missing''" by code_simp
  have b3: "''/missing'' \<noteq> ''/_error''" by simp
  have b4: "lookupRoute missing_request ''/missing'' served = None" by code_simp
  from ensurePage_route_missing [OF a1 a2 a3 a4] ensurePage_route_missing [OF b1 b2 b3 b4] a4 b4
  show ?thesis by (simp add: optional_pages_def)
qed

text \<open>
  C9 as the specification words it fails. The page \<^verbatim>\<open>/_error\<close> has no entry in either
  map and is none of the six names, yet \<^verbatim>\<open>ensurePage\<close> neither returns without effect
  nor throws: it writes the global endpoints to disk and returns. And a request whose
  definition has the pathname \<^verbatim>\<open>/broken\<close> is looked up under that pathname: its page,
  the empty name, has no entry in either map and is none of the six names, yet no
  \<^verbatim>\<open>PageNotFoundError\<close> is thrown.
\<close>

theorem error_page_is_built_without_route:
  "\<not> in_directory served ''/_error'' \<and> ''/_error'' \<notin> set optional_pages
   \<and> outcome (ensurePage example_env error_request served) =
       (None, {''/_error''}, [Endpoint 3, Endpoint 4, Endpoint 5])
   \<and> \<not> in_directory served [] \<and> [] \<notin> set optional_pages
   \<and> snd (ensurePage example_env nameless_request served) = None"
  by code_simp

section \<open>The directory diff\<close>

lemma addRoute_frame [simp]:
  "changeSubscriptions (addRoute r st) = changeSubscriptions st"
  "returned (addRoute r st) = returned st"
  "ledger (addRoute r st) = ledger st"
  by (cases r; cases "snd r"; simp)+

lemma addRoutes_frame [simp]:
  "changeSubscriptions (foldl (\<lambda>s r. addRoute r s) st rs) = changeSubscriptions st"
  "returned (foldl (\<lambda>s r. addRoute r s) st rs) = returned st"
  "ledger (foldl (\<lambda>s r. addRoute r s) st rs) = ledger st"
  by (induction rs arbitrary: st) simp_all

lemma rebuildDirectory_frame [simp]:
  "changeSubscriptions (rebuildDirectory ep st) = changeSubscriptions st"
  "returned (rebuildDirectory ep st) = returned st"
  "ledger (rebuildDirectory ep st) = ledger st"
  by (simp_all add: rebuildDirectory_def)











end
